theory Spec2Isabelle
  imports Complex_Main
begin

section \<open>Data model of the tower-defence scene\<close>

text \<open>
  The development embeds \<^verbatim>\<open>src/game/MainScene.ts\<close>. JavaScript numbers are modelled as
  exact reals, with one exception: the counter of the sampling loop of
  \<^verbatim>\<open>checkPathProximity\<close> is rounded to the nearest binary64 number after every addition,
  because the number of samples taken depends on that rounding. The counters that the
  source only initialises with integer literals and changes with \<^verbatim>\<open>++\<close>, \<^verbatim>\<open>--\<close> or
  \<^verbatim>\<open>Math.floor\<close> (level, lives, tower count, tower level, enemies remaining) are integers.
  Objects that the source reaches through references are kept in stores: enemies, towers
  and projectiles in lists whose index is the object's identity, tower configurations in
  an explicit heap of addresses, because towers, the placement selection and the static
  archetype table refer to configuration objects that \<^verbatim>\<open>upgradeTower\<close> mutates in place.
  A destroyed game object stays in its store with its \<^verbatim>\<open>active\<close> flag cleared; Phaser's
  \<^verbatim>\<open>destroy\<close> also takes it out of its group, so the children of a group are the objects
  of its store that are still active, in the order of their creation.
  Drawing, tweens, camera effects, health bars, the body velocity and rotation of a
  projectile and the timer that expires a projectile belong to the rendering and physics
  engine and are not part of the state.
\<close>

datatype EnemyArchetype = SCOUT | SENTINEL | GOLIATH | BOSS

datatype TargetingPriority = FIRST | STRONGEST | WEAKEST | CLOSEST

datatype error = TypeError

type_synonym addr = nat

record TowerConfig =
  cfg_id :: string
  cfg_name :: string
  cfg_cost :: real
  cfg_damage :: real
  cfg_range :: real
  cfg_fireRate :: real
  cfg_color :: int
  cfg_description :: string

record GameStats =
  gold :: real
  lives :: int
  level :: int
  score :: real
  towerCount :: int
  waveActive :: bool
  gameSpeed :: real

record Enemy =
  archetype :: EnemyArchetype
  hp :: real
  maxHp :: real
  speed :: real
  en_t :: real
  en_x :: real
  en_y :: real
  en_active :: bool

record Tower =
  tw_id :: string
  tw_x :: real
  tw_y :: real
  tw_level :: int
  tw_config :: addr
  targetingPriority :: TargetingPriority
  nextFire :: real

record Projectile =
  pr_damage :: real
  towerId :: string
  target :: "nat option"
  pr_active :: bool

record TowerInstance =
  ti_id :: string
  ti_x :: real
  ti_y :: real
  ti_config :: addr
  ti_targetingPriority :: TargetingPriority
  ti_level :: int

text \<open>The callbacks handed to the constructor are modelled as a log of the calls made.\<close>

datatype Event =
  StatsUpdate GameStats
| GameOver
| TowerSelected "TowerInstance option"

record MainScene =
  path :: "(real \<times> real) list option"
  enemies :: "Enemy list"
  towers :: "Tower list"
  projectiles :: "Projectile list"
  stats :: GameStats
  currentTowerType :: "addr option"
  selectedTowerObject :: "nat option"
  nextEnemyTime :: real
  enemiesRemaining :: int
  waveInProgress :: bool
  scaledTime :: real
  timeScale :: real
  configs :: "addr \<Rightarrow> TowerConfig"
  fresh :: addr
  events :: "Event list"

text \<open>
  What the scene takes from the Phaser library: the point of a path at parameter \<open>t\<close>
  (\<^verbatim>\<open>null\<close> is \<open>None\<close>) and the size of the play field. A path is the list of its way
  points, the start point first.
\<close>

record Phaser =
  getPoint :: "(real \<times> real) list \<Rightarrow> real \<Rightarrow> (real \<times> real) option"
  scale_width :: real
  scale_height :: real

text \<open>
  The random draws of one call: the value of \<^verbatim>\<open>Math.random()\<close> in \<^verbatim>\<open>spawnEnemy\<close> and
  the value of \<^verbatim>\<open>Phaser.Math.Between(80, height - 80)\<close> in iteration \<open>i\<close> of \<^verbatim>\<open>createPath\<close>.
\<close>

record Random =
  Math_random :: real
  Math_Between :: "int \<Rightarrow> real"

section \<open>Operations\<close>

text \<open>\<^verbatim>\<open>Phaser.Math.Distance.Between\<close>: the Euclidean distance of two points.\<close>

definition Distance_Between :: "real \<Rightarrow> real \<Rightarrow> real \<Rightarrow> real \<Rightarrow> real" where
  "Distance_Between x1 y1 x2 y2 =
     (let dx = x1 - x2; dy = y1 - y2 in sqrt (dx * dx + dy * dy))"

text \<open>\<^verbatim>\<open>createPath\<close>, lines 107-117.\<close>

definition createPath :: "Phaser \<Rightarrow> Random \<Rightarrow> MainScene \<Rightarrow> MainScene" where
  "createPath ph rnd s =
     (let width = scale_width ph;
          height = scale_height ph;
          segments = min (3 + \<lfloor>real_of_int (level (stats s)) / 2.5\<rfloor>) 15
      in s\<lparr>path := Some ((- 50, height / 2) #
             map (\<lambda>i. ((width / real_of_int segments) * real_of_int i,
                        if i = segments then height / 2 else Math_Between rnd i))
                 [1..segments])\<rparr>)"

text \<open>
  Binary64 arithmetic, as far as the loop counter of \<^verbatim>\<open>checkPathProximity\<close> needs it:
  \<open>double x\<close> is the binary64 number nearest to \<open>x\<close>, ties to the even significand,
  with 53 significant bits and the subnormal spacing \<open>2 powr - 1074\<close> at the bottom.
  Overflow to infinity is left out: the counter stays below 2.
\<close>

definition roundTiesToEven :: "real \<Rightarrow> int" where
  "roundTiesToEven x =
     (let f = \<lfloor>x\<rfloor>; d = x - real_of_int f
      in if d < 1 / 2 then f
         else if d > 1 / 2 then f + 1
         else if even f then f else f + 1)"

definition double :: "real \<Rightarrow> real" where
  "double x =
     (if x = 0 then 0
      else
        let e = max (\<lfloor>log 2 \<bar>x\<bar>\<rfloor> - 52) (- 1074);
            q = 2 powr real_of_int e
        in real_of_int (roundTiesToEven (x / q)) * q)"

text \<open>
  \<^verbatim>\<open>checkPathProximity\<close>, lines 221-228. \<open>loop_t k\<close> is the value of the counter \<open>t\<close>
  of \<^verbatim>\<open>for (let t = 0; t <= 1; t += 0.005)\<close> when the test \<^verbatim>\<open>t <= 1\<close> is made for the
  \<open>k\<close>-th time: it starts at 0, and each \<^verbatim>\<open>t += 0.005\<close> adds the binary64 number
  nearest to 0.005 and rounds the sum. \<open>nearSample\<close> is the test of line 225 at the sample
  \<open>t\<close>; the loop is started at \<open>k = 0\<close>.
\<close>

fun loop_t :: "nat \<Rightarrow> real" where
  "loop_t 0 = 0"
| "loop_t (Suc k) = double (loop_t k + double 0.005)"

definition nearSample :: "Phaser \<Rightarrow> (real \<times> real) list \<Rightarrow> real \<Rightarrow> real \<Rightarrow> real \<Rightarrow> bool" where
  "nearSample ph pth x y t =
     (case getPoint ph pth t of
        None \<Rightarrow> False
      | Some p \<Rightarrow> Distance_Between x y (fst p) (snd p) < 35)"

function checkPathProximity_loop ::
  "Phaser \<Rightarrow> (real \<times> real) list \<Rightarrow> real \<Rightarrow> real \<Rightarrow> nat \<Rightarrow> bool" where
  "checkPathProximity_loop ph pth x y k =
     (if loop_t k \<le> 1 then
        (if nearSample ph pth x y (loop_t k) then True
         else checkPathProximity_loop ph pth x y (Suc k))
      else False)"
  by pat_completeness auto
termination
proof (relation "measure (\<lambda>(ph, pth, x, y, k). 251 - k)")
  show "wf (measure (\<lambda>(ph, pth, x, y, k). 251 - k))"
    by simp
next
  fix ph :: Phaser and pth :: "(real \<times> real) list" and x y :: real and k :: nat
  assume le: "loop_t k \<le> 1"
  have round_lower: "u - 1 / 2 \<le> real_of_int (roundTiesToEven u)" for u
    unfolding roundTiesToEven_def Let_def by (simp; linarith)
  have round_nonneg: "0 \<le> roundTiesToEven u" if "0 \<le> u" for u
    using that unfolding roundTiesToEven_def Let_def by (simp; linarith)
  have double_nonneg: "0 \<le> double u" if "0 \<le> u" for u
    using that by (simp add: double_def Let_def round_nonneg)
  have double_lower: "u - u / 2 ^ 53 \<le> double u" if u: "1 / 256 \<le> u" for u
  proof -
    have u0: "0 < u" using u by simp
    have "(2::real) powr - 8 = 1 / 256" by (simp add: powr_minus_divide)
    then have "- 8 \<le> log 2 u"
      using u u0 by (simp add: le_log_iff)
    then have f8: "- 8 \<le> \<lfloor>log 2 u\<rfloor>" by (simp add: le_floor_iff)
    let ?e = "\<lfloor>log 2 u\<rfloor> - 52"
    let ?q = "2 powr real_of_int ?e"
    have "- 1074 \<le> ?e" using f8 by linarith
    then have m: "max ?e (- 1074) = ?e" by (rule max_absorb1)
    have d: "double u = real_of_int (roundTiesToEven (u / ?q)) * ?q"
      using u0 by (simp add: double_def Let_def m)
    have q0: "0 < ?q" by simp
    have "real_of_int ?e \<le> log 2 u - 52" by simp
    then have "?q \<le> 2 powr (log 2 u - 52)" by (simp only: powr_le_cancel_iff)
    also have "\<dots> = u / 2 ^ 52"
      using u0 by (simp add: powr_diff powr_numeral)
    finally have qle: "?q \<le> u / 2 ^ 52" .
    have "u / ?q - 1 / 2 \<le> real_of_int (roundTiesToEven (u / ?q))" by (rule round_lower)
    then have "(u / ?q - 1 / 2) * ?q \<le> real_of_int (roundTiesToEven (u / ?q)) * ?q"
      using q0 by (simp only: mult_le_cancel_right) simp
    then have "u - ?q / 2 \<le> double u"
      using q0 by (simp add: d algebra_simps)
    moreover have "?q / 2 \<le> u / 2 ^ 53" using qle by simp
    ultimately show ?thesis by linarith
  qed
  have step: "499 / 100000 \<le> double 0.005"
  proof -
    have "(0.005::real) - 0.005 / 2 ^ 53 \<le> double 0.005"
      by (rule double_lower) simp
    moreover have "(499 / 100000 :: real) \<le> 0.005 - 0.005 / 2 ^ 53" by simp
    ultimately show ?thesis by linarith
  qed
  have nonneg: "0 \<le> loop_t j" for j
    by (induction j) (simp_all add: double_nonneg)
  have p: "(2::real) ^ 53 = 9007199254740992" by simp
  have a1: "r + 1 / 250 \<le> t + c - (t + c) / 9007199254740992"
    if "r \<le> t" and "499 / 100000 \<le> c" and "r \<le> 2" for r t c :: real
    using that by (simp add: field_simps)
  have a2: "2 \<le> t + c - (t + c) / 9007199254740992"
    if "2 \<le> t" and "499 / 100000 \<le> c" for t c :: real
    using that by (simp add: field_simps)
  have grows: "min (real j / 250) 2 \<le> loop_t j" for j
  proof (induction j)
    case 0
    show ?case by simp
  next
    case (Suc j)
    let ?u = "loop_t j + double 0.005"
    have u: "1 / 256 \<le> ?u" using step nonneg [of j] by simp
    have lo: "?u - ?u / 9007199254740992 \<le> loop_t (Suc j)"
      using double_lower [OF u] unfolding p by simp
    show ?case
    proof (cases "real j / 250 \<le> 2")
      case True
      then have "real j / 250 \<le> loop_t j" using Suc.IH by simp
      then have "real j / 250 + 1 / 250 \<le> ?u - ?u / 9007199254740992"
        using step True by (rule a1)
      moreover have "real (Suc j) / 250 = real j / 250 + 1 / 250"
        by (simp add: field_simps)
      ultimately have "real (Suc j) / 250 \<le> loop_t (Suc j)"
        using lo by linarith
      then show ?thesis by (simp only: min_le_iff_disj) simp
    next
      case False
      then have "2 \<le> loop_t j" using Suc.IH by simp
      then have "2 \<le> ?u - ?u / 9007199254740992"
        using step by (rule a2)
      then have "2 \<le> loop_t (Suc j)"
        using lo by linarith
      then show ?thesis by (simp only: min_le_iff_disj) simp
    qed
  qed
  have "real k / 250 \<le> 1"
    using grows [of k] le by simp
  then have "k < 251" by simp
  then show "((ph, pth, x, y, Suc k), (ph, pth, x, y, k))
          \<in> measure (\<lambda>(ph, pth, x, y, k). 251 - k)"
    by simp
qed

declare checkPathProximity_loop.simps [simp del]

definition checkPathProximity :: "Phaser \<Rightarrow> MainScene \<Rightarrow> real \<Rightarrow> real \<Rightarrow> bool" where
  "checkPathProximity ph s x y =
     (case path s of
        None \<Rightarrow> False
      | Some pth \<Rightarrow> checkPathProximity_loop ph pth x y 0)"

text \<open>\<^verbatim>\<open>spawnEnemy\<close>, lines 230-300. Reading \<^verbatim>\<open>startPoint.x\<close> of a null start point throws.\<close>

definition spawnEnemy :: "Phaser \<Rightarrow> Random \<Rightarrow> MainScene \<Rightarrow> error + MainScene" where
  "spawnEnemy ph rnd s =
     (case path s of
        None \<Rightarrow> Inr s
      | Some pth \<Rightarrow>
          let lvl = level (stats s);
              isBossLevel = (lvl mod 10 = 0);
              arch = (if isBossLevel then BOSS
                      else let roll = Math_random rnd in
                        if lvl \<ge> 4 \<and> roll < 0.25 then GOLIATH
                        else if lvl \<ge> 2 \<and> roll < 0.45 then SCOUT
                        else SENTINEL);
              hpMultiplier = (case arch of
                                SCOUT \<Rightarrow> 0.5
                              | GOLIATH \<Rightarrow> 4.0
                              | BOSS \<Rightarrow> 15 + real_of_int lvl / 2
                              | SENTINEL \<Rightarrow> 1);
              speedMultiplier = (case arch of
                                   SCOUT \<Rightarrow> 1.7
                                 | GOLIATH \<Rightarrow> 0.6
                                 | BOSS \<Rightarrow> 0.5
                                 | SENTINEL \<Rightarrow> 1);
              baseHp = 15 + (real_of_int lvl powr 1.6) * 8 + real_of_int lvl * 15;
              baseSpeed = 3.2 + real_of_int lvl * 0.45
          in case getPoint ph pth 0 of
               None \<Rightarrow> Inl TypeError
             | Some startPoint \<Rightarrow>
                 Inr (s\<lparr>enemies := enemies s @
                        [\<lparr>archetype = arch,
                          hp = baseHp * hpMultiplier,
                          maxHp = baseHp * hpMultiplier,
                          speed = baseSpeed * speedMultiplier,
                          en_t = 0,
                          en_x = fst startPoint,
                          en_y = snd startPoint,
                          en_active = True\<rparr>]\<rparr>))"

text \<open>
  \<^verbatim>\<open>getPriorityTarget\<close>, lines 315-338. The result is the index of the chosen enemy.
  \<open>inRange\<close> is the constant of that name in the source; \<^verbatim>\<open>reduce\<close> without a start
  value folds from the first element.
\<close>

definition inRange :: "MainScene \<Rightarrow> Tower \<Rightarrow> nat list" where
  "inRange s tower =
     (let activeEnemies = filter (\<lambda>e. en_active (enemies s ! e)) [0..<length (enemies s)]
      in filter (\<lambda>e. Distance_Between (tw_x tower) (tw_y tower)
                        (en_x (enemies s ! e)) (en_y (enemies s ! e))
                      \<le> cfg_range (configs s (tw_config tower))) activeEnemies)"

definition getPriorityTarget :: "MainScene \<Rightarrow> Tower \<Rightarrow> nat option" where
  "getPriorityTarget s tower =
     (case inRange s tower of
        [] \<Rightarrow> None
      | e0 # es \<Rightarrow>
          (case targetingPriority tower of
             FIRST \<Rightarrow>
               Some (foldl (\<lambda>prev curr.
                 if en_t (enemies s ! prev) > en_t (enemies s ! curr) then prev else curr) e0 es)
           | STRONGEST \<Rightarrow>
               Some (foldl (\<lambda>prev curr.
                 if hp (enemies s ! prev) > hp (enemies s ! curr) then prev else curr) e0 es)
           | WEAKEST \<Rightarrow>
               Some (foldl (\<lambda>prev curr.
                 if hp (enemies s ! prev) < hp (enemies s ! curr) then prev else curr) e0 es)
           | CLOSEST \<Rightarrow>
               Some (foldl (\<lambda>prev curr.
                 let distPrev = Distance_Between (tw_x tower) (tw_y tower)
                                  (en_x (enemies s ! prev)) (en_y (enemies s ! prev));
                     distCurr = Distance_Between (tw_x tower) (tw_y tower)
                                  (en_x (enemies s ! curr)) (en_y (enemies s ! curr))
                 in if distPrev < distCurr then prev else curr) e0 es)))"

text \<open>\<^verbatim>\<open>shoot\<close>, lines 340-362.\<close>

definition shoot :: "MainScene \<Rightarrow> Tower \<Rightarrow> nat \<Rightarrow> MainScene" where
  "shoot s tower tgt =
     s\<lparr>projectiles := projectiles s @
         [\<lparr>pr_damage = cfg_damage (configs s (tw_config tower)),
           towerId = cfg_id (configs s (tw_config tower)),
           target = Some tgt,
           pr_active = True\<rparr>]\<rparr>"

text \<open>
  \<^verbatim>\<open>handleHit\<close>, lines 364-424, on the projectile and the enemy with the given indices.
\<close>

definition handleHit :: "MainScene \<Rightarrow> nat \<Rightarrow> nat \<Rightarrow> MainScene" where
  "handleHit s projectileObj enemyObj =
     (let projectile = projectiles s ! projectileObj;
          enemy = enemies s ! enemyObj
      in if \<not> pr_active projectile \<or> \<not> en_active enemy then s
         else
           let finalDamage0 = pr_damage projectile;
               finalDamage =
                 (if archetype enemy = GOLIATH \<or> archetype enemy = BOSS then
                    (let d1 = (if towerId projectile = ''rapid''
                               then finalDamage0 * 0.5 else finalDamage0)
                     in if towerId projectile = ''sniper'' then d1 * 1.25 else d1)
                  else finalDamage0);
               enemy1 = enemy\<lparr>hp := hp enemy - finalDamage\<rparr>;
               s1 = s\<lparr>enemies := (enemies s)[enemyObj := enemy1],
                      projectiles := (projectiles s)
                        [projectileObj := projectile\<lparr>pr_active := False\<rparr>]\<rparr>
           in if hp enemy1 \<le> 0 then
                let goldReward0 = 40 + real_of_int \<lfloor>real_of_int (level (stats s)) * 8\<rfloor>;
                    scoreReward0 = 800 * real_of_int (level (stats s));
                    goldReward = (if archetype enemy = GOLIATH then goldReward0 * 2.5
                                  else if archetype enemy = BOSS then goldReward0 * 10
                                  else goldReward0);
                    scoreReward = (if archetype enemy = GOLIATH then scoreReward0 * 2
                                   else if archetype enemy = BOSS then scoreReward0 * 10
                                   else scoreReward0);
                    st = (stats s)\<lparr>gold := gold (stats s) + goldReward,
                                    score := score (stats s) + scoreReward\<rparr>
                in s1\<lparr>stats := st,
                      events := events s @ [StatsUpdate st],
                      enemies := (enemies s)[enemyObj := enemy1\<lparr>en_active := False\<rparr>]\<rparr>
              else s1)"

text \<open>
  \<^verbatim>\<open>placeTower\<close>, lines 426-514. \<open>now\<close> is the value of \<^verbatim>\<open>Date.now()\<close>;
  \<open>decimal\<close> is its rendering in the template string of the tower id.
\<close>

fun decimal :: "nat \<Rightarrow> string" where
  "decimal n =
     (if n < 10 then [char_of (48 + n)]
      else decimal (n div 10) @ [char_of (48 + n mod 10)])"

declare decimal.simps [simp del]

definition placeTower :: "Phaser \<Rightarrow> MainScene \<Rightarrow> real \<Rightarrow> real \<Rightarrow> nat \<Rightarrow> MainScene" where
  "placeTower ph s x y now =
     (case currentTowerType s of
        None \<Rightarrow> s
      | Some c \<Rightarrow>
          if gold (stats s) < cfg_cost (configs s c) then s
          else if checkPathProximity ph s x y then s
          else
            let st = (stats s)\<lparr>gold := gold (stats s) - cfg_cost (configs s c),
                                towerCount := towerCount (stats s) + 1\<rparr>;
                a = fresh s;
                tower = \<lparr>tw_id = ''tower-'' @ decimal now,
                         tw_x = x,
                         tw_y = y,
                         tw_level = 1,
                         tw_config = a,
                         targetingPriority = FIRST,
                         nextFire = 0\<rparr>
            in s\<lparr>stats := st,
                 configs := (configs s)(a := configs s c),
                 fresh := a + 1,
                 towers := towers s @ [tower],
                 events := events s @ [StatsUpdate st]\<rparr>)"

text \<open>\<^verbatim>\<open>selectTower\<close>, lines 561-571, and \<^verbatim>\<open>upgradeTower\<close>, lines 516-559.\<close>

definition selectTower :: "MainScene \<Rightarrow> nat \<Rightarrow> MainScene" where
  "selectTower s i =
     (let tower = towers s ! i
      in s\<lparr>selectedTowerObject := Some i,
           events := events s @
             [TowerSelected (Some \<lparr>ti_id = tw_id tower,
                                   ti_x = tw_x tower,
                                   ti_y = tw_y tower,
                                   ti_config = tw_config tower,
                                   ti_targetingPriority = targetingPriority tower,
                                   ti_level = tw_level tower\<rparr>)]\<rparr>)"

definition upgradeTower :: "MainScene \<Rightarrow> string \<Rightarrow> MainScene" where
  "upgradeTower s twId =
     (case find (\<lambda>i. tw_id (towers s ! i) = twId) [0..<length (towers s)] of
        None \<Rightarrow> s
      | Some i \<Rightarrow>
          let tower = towers s ! i;
              a = tw_config tower;
              c1 = (configs s a)\<lparr>cfg_damage :=
                      real_of_int \<lfloor>cfg_damage (configs s a) * 1.5\<rfloor>\<rparr>;
              c2 = c1\<lparr>cfg_fireRate := real_of_int \<lfloor>cfg_fireRate c1 * 0.85\<rfloor>\<rparr>
          in selectTower
               (s\<lparr>towers := (towers s)[i := tower\<lparr>tw_level := tw_level tower + 1\<rparr>],
                  configs := (configs s)(a := c2)\<rparr>) i)"

text \<open>\<^verbatim>\<open>startWave\<close>, lines 595-603, and \<^verbatim>\<open>completeLevel\<close>, lines 605-615.\<close>

definition startWave :: "MainScene \<Rightarrow> MainScene" where
  "startWave s =
     (if waveInProgress s then s
      else
        let st = (stats s)\<lparr>waveActive := True\<rparr>;
            isBossLevel = (level st mod 10 = 0)
        in s\<lparr>waveInProgress := True,
             stats := st,
             enemiesRemaining :=
               (if isBossLevel then max 1 \<lfloor>real_of_int (level st) / 5\<rfloor>
                else 20 + \<lfloor>real_of_int (level st) * 8\<rfloor>),
             events := events s @ [StatsUpdate st]\<rparr>)"

definition completeLevel :: "Phaser \<Rightarrow> Random \<Rightarrow> MainScene \<Rightarrow> MainScene" where
  "completeLevel ph rnd s =
     (let st0 = (stats s)\<lparr>waveActive := False, level := level (stats s) + 1\<rparr>;
          st = st0\<lparr>gold := gold st0 + (350 + real_of_int (level st0) * 60)\<rparr>;
          s1 = s\<lparr>waveInProgress := False,
                 stats := st,
                 events := events s @ [StatsUpdate st]\<rparr>
      in if level st > 30 then s1\<lparr>events := events s1 @ [GameOver]\<rparr>
         else createPath ph rnd s1)"

section \<open>The per-tick update\<close>

text \<open>
  The three \<^verbatim>\<open>forEach\<close> callbacks of \<^verbatim>\<open>update\<close>, each on the object with index \<open>i\<close>:
  lines 180-188 (towers), 190-208 (enemies) and 210-218 (projectiles).
  \<^verbatim>\<open>moveToObject\<close> and \<^verbatim>\<open>setRotation\<close> only set the velocity and rotation of a
  projectile, which the model leaves to the physics engine; the overlap of a projectile
  with an enemy is reported by the engine through \<^verbatim>\<open>handleHit\<close>, outside \<^verbatim>\<open>update\<close>.
\<close>

definition fireTower :: "nat \<Rightarrow> MainScene \<Rightarrow> MainScene" where
  "fireTower i s =
     (let towerObj = towers s ! i
      in if scaledTime s > nextFire towerObj then
           (case getPriorityTarget s towerObj of
              None \<Rightarrow> s
            | Some tgt \<Rightarrow>
                let s1 = shoot s towerObj tgt
                in s1\<lparr>towers := (towers s1)
                       [i := towerObj\<lparr>nextFire := scaledTime s1 +
                               cfg_fireRate (configs s1 (tw_config towerObj))\<rparr>]\<rparr>)
         else s)"

definition moveEnemy :: "Phaser \<Rightarrow> real \<Rightarrow> nat \<Rightarrow> MainScene \<Rightarrow> MainScene" where
  "moveEnemy ph scaledDelta i s =
     (let enemy = enemies s ! i
      in if \<not> en_active enemy then s
         else
           let enemy1 = enemy\<lparr>en_t := en_t enemy + (speed enemy * scaledDelta) / 100000\<rparr>;
               pos = (case path s of
                        None \<Rightarrow> None
                      | Some pth \<Rightarrow> getPoint ph pth (en_t enemy1));
               enemy2 = (case pos of
                           None \<Rightarrow> enemy1
                         | Some p \<Rightarrow> enemy1\<lparr>en_x := fst p, en_y := snd p\<rparr>)
           in if en_t enemy2 \<ge> 1 then
                let st = (stats s)\<lparr>lives := lives (stats s) - 1\<rparr>;
                    s1 = s\<lparr>stats := st,
                           events := events s @ [StatsUpdate st],
                           enemies := (enemies s)[i := enemy2\<lparr>en_active := False\<rparr>]\<rparr>
                in if lives st \<le> 0 then s1\<lparr>events := events s1 @ [GameOver]\<rparr> else s1
              else s\<lparr>enemies := (enemies s)[i := enemy2]\<rparr>)"

definition stepProjectile :: "nat \<Rightarrow> MainScene \<Rightarrow> MainScene" where
  "stepProjectile i s =
     (let p = projectiles s ! i
      in case target p of
           None \<Rightarrow> s\<lparr>projectiles := (projectiles s)[i := p\<lparr>pr_active := False\<rparr>]\<rparr>
         | Some e \<Rightarrow>
             if \<not> en_active (enemies s ! e)
             then s\<lparr>projectiles := (projectiles s)[i := p\<lparr>pr_active := False\<rparr>]\<rparr>
             else s)"

text \<open>
  \<^verbatim>\<open>getChildren()\<close> of the enemy group and of the projectile group: the live arrays of
  the objects not yet destroyed.
\<close>

definition enemyChildren :: "MainScene \<Rightarrow> nat list" where
  "enemyChildren s = filter (\<lambda>e. en_active (enemies s ! e)) [0..<length (enemies s)]"

definition projectileChildren :: "MainScene \<Rightarrow> nat list" where
  "projectileChildren s =
     filter (\<lambda>p. pr_active (projectiles s ! p)) [0..<length (projectiles s)]"

text \<open>
  \<^verbatim>\<open>Array.prototype.forEach\<close> on the live array \<open>children\<close> of a group, from index \<open>k\<close>:
  the length \<open>len\<close> is read once before the first call, the element at index \<open>k\<close> is
  read from the array as it is when its turn comes, and an index that is no longer in the
  array is passed over. A callback that destroys its object shortens the array, so the
  child behind it moves to the index just visited and is not visited in this pass.
\<close>

function forEach ::
  "(MainScene \<Rightarrow> nat list) \<Rightarrow> (nat \<Rightarrow> MainScene \<Rightarrow> MainScene) \<Rightarrow> nat \<Rightarrow> nat
     \<Rightarrow> MainScene \<Rightarrow> MainScene" where
  "forEach children f k len s =
     (if k < len then
        forEach children f (Suc k) len
          (if k < length (children s) then f (children s ! k) s else s)
      else s)"
  by pat_completeness auto
termination
  by (relation "measure (\<lambda>(children, f, k, len, s). len - k)") auto

declare forEach.simps [simp del]

text \<open>\<^verbatim>\<open>countActive\<close> of the enemy group.\<close>

definition countActive :: "Enemy list \<Rightarrow> nat" where
  "countActive es = length (filter en_active es)"

text \<open>
  \<^verbatim>\<open>update\<close>, lines 135-219, in the order of its statements. The blocks that only draw
  (lines 139-167) are left out. No tower is ever destroyed, so the tower loop visits every
  tower; the enemy loop and the projectile loop run on the live arrays of their groups.
\<close>

definition update :: "Phaser \<Rightarrow> Random \<Rightarrow> MainScene \<Rightarrow> real \<Rightarrow> real \<Rightarrow> error + MainScene" where
  "update ph rnd s time delta =
     (let scaledDelta = delta * timeScale s;
          s1 = s\<lparr>scaledTime := scaledTime s + scaledDelta\<rparr>
      in case (if waveInProgress s1 \<and> enemiesRemaining s1 > 0
                  \<and> scaledTime s1 > nextEnemyTime s1
               then (case spawnEnemy ph rnd s1 of
                       Inl e \<Rightarrow> Inl e
                     | Inr s2 \<Rightarrow>
                         Inr (s2\<lparr>enemiesRemaining := enemiesRemaining s2 - 1,
                                 nextEnemyTime := scaledTime s2 +
                                   1200 / (1 + real_of_int (level (stats s2)) * 0.4)\<rparr>))
               else Inr s1) of
           Inl e \<Rightarrow> Inl e
         | Inr s3 \<Rightarrow>
             let s4 = (if waveInProgress s3 \<and> enemiesRemaining s3 = 0
                          \<and> countActive (enemies s3) = 0
                       then completeLevel ph rnd s3 else s3);
                 s5 = fold fireTower [0..<length (towers s4)] s4;
                 s6 = forEach enemyChildren (moveEnemy ph scaledDelta) 0
                        (length (enemyChildren s5)) s5;
                 s7 = forEach projectileChildren stepProjectile 0
                        (length (projectileChildren s6)) s6
             in Inr s7)"

section \<open>The sub-steps of a tick\<close>

text \<open>
  The blocks of \<^verbatim>\<open>update\<close> as functions of their own: the clock (lines 136-137), the
  spawn check of the wave director (169-174), the wave-completion check (176-178), tower
  firing (180-188), enemy movement with the loss of a life at the core (190-208) and the
  projectile step (210-218).
\<close>

definition clockAdvance :: "real \<Rightarrow> MainScene \<Rightarrow> MainScene" where
  "clockAdvance delta s = s\<lparr>scaledTime := scaledTime s + delta * timeScale s\<rparr>"

definition spawnCheck :: "Phaser \<Rightarrow> Random \<Rightarrow> MainScene \<Rightarrow> error + MainScene" where
  "spawnCheck ph rnd s =
     (if waveInProgress s \<and> enemiesRemaining s > 0 \<and> scaledTime s > nextEnemyTime s
      then (case spawnEnemy ph rnd s of
              Inl e \<Rightarrow> Inl e
            | Inr s2 \<Rightarrow>
                Inr (s2\<lparr>enemiesRemaining := enemiesRemaining s2 - 1,
                        nextEnemyTime := scaledTime s2 +
                          1200 / (1 + real_of_int (level (stats s2)) * 0.4)\<rparr>))
      else Inr s)"

definition completionCheck :: "Phaser \<Rightarrow> Random \<Rightarrow> MainScene \<Rightarrow> MainScene" where
  "completionCheck ph rnd s =
     (if waveInProgress s \<and> enemiesRemaining s = 0 \<and> countActive (enemies s) = 0
      then completeLevel ph rnd s else s)"

definition towersFire :: "MainScene \<Rightarrow> MainScene" where
  "towersFire s = fold fireTower [0..<length (towers s)] s"

definition enemiesMove :: "Phaser \<Rightarrow> real \<Rightarrow> MainScene \<Rightarrow> MainScene" where
  "enemiesMove ph scaledDelta s =
     forEach enemyChildren (moveEnemy ph scaledDelta) 0 (length (enemyChildren s)) s"

definition projectilesStep :: "MainScene \<Rightarrow> MainScene" where
  "projectilesStep s =
     forEach projectileChildren stepProjectile 0 (length (projectileChildren s)) s"

text \<open>The sub-steps in the order of the source.\<close>

definition update_steps ::
  "Phaser \<Rightarrow> Random \<Rightarrow> MainScene \<Rightarrow> real \<Rightarrow> real \<Rightarrow> error + MainScene" where
  "update_steps ph rnd s time delta =
     (case spawnCheck ph rnd (clockAdvance delta s) of
        Inl e \<Rightarrow> Inl e
      | Inr s3 \<Rightarrow>
          Inr (projectilesStep
                (enemiesMove ph (delta * timeScale s)
                  (towersFire
                    (completionCheck ph rnd s3)))))"


section \<open>Invariants\<close>

text \<open>
  Ownership of configuration objects: no two towers share a configuration, no tower uses
  an object of the static table \<open>T\<close>, and every object in use was allocated before
  \<open>fresh\<close>.
\<close>

definition separate :: "MainScene \<Rightarrow> addr set \<Rightarrow> bool" where
  "separate s T \<longleftrightarrow>
     distinct (map tw_config (towers s))
     \<and> list_all (\<lambda>t. tw_config t < fresh s \<and> tw_config t \<notin> T) (towers s)
     \<and> Ball T (\<lambda>a. a < fresh s)"

section \<open>Concrete scenes\<close>

text \<open>
  The static table \<^verbatim>\<open>TOWERS\<close> of the application (Striker, Longshot, Swarm), held at the
  addresses 0, 1 and 2 of the configuration heap.
\<close>

definition TOWERS :: "TowerConfig list" where
  "TOWERS =
     [\<lparr>cfg_id = ''basic'', cfg_name = ''Striker'', cfg_cost = 100, cfg_damage = 10,
       cfg_range = 150, cfg_fireRate = 800, cfg_color = 0x3b82f6,
       cfg_description = ''Reliable all-rounder. No special properties.''\<rparr>,
      \<lparr>cfg_id = ''sniper'', cfg_name = ''Longshot'', cfg_cost = 250, cfg_damage = 40,
       cfg_range = 300, cfg_fireRate = 2500, cfg_color = 0xeab308,
       cfg_description = ''Piercing shots: +25% DMG vs Goliaths & Bosses.''\<rparr>,
      \<lparr>cfg_id = ''rapid'', cfg_name = ''Swarm'', cfg_cost = 200, cfg_damage = 4,
       cfg_range = 120, cfg_fireRate = 200, cfg_color = 0xa855f7,
       cfg_description = ''High fire rate. -50% DMG vs Goliaths & Bosses.''\<rparr>]"

text \<open>
  A play field of 800 by 600 whose path runs straight through the middle, and fixed random
  draws.
\<close>

definition ph0 :: Phaser where
  "ph0 = \<lparr>getPoint = (\<lambda>pth t. if 0 \<le> t \<and> t \<le> 1 then Some (850 * t - 50, 300) else None),
          scale_width = 800,
          scale_height = 600\<rparr>"

definition rnd0 :: Random where
  "rnd0 = \<lparr>Math_random = 0.5, Math_Between = (\<lambda>i. 300)\<rparr>"

text \<open>The scene after \<^verbatim>\<open>init\<close> and \<^verbatim>\<open>create\<close>, lines 65-105.\<close>

definition scene0 :: MainScene where
  "scene0 =
     \<lparr>path = Some [(- 50, 300), (800 / 3, 300), (1600 / 3, 300), (800, 300)],
      enemies = [],
      towers = [],
      projectiles = [],
      stats = \<lparr>gold = 500, lives = 20, level = 1, score = 0, towerCount = 0,
                waveActive = False, gameSpeed = 1\<rparr>,
      currentTowerType = None,
      selectedTowerObject = None,
      nextEnemyTime = 0,
      enemiesRemaining = 0,
      waveInProgress = False,
      scaledTime = 0,
      timeScale = 1,
      configs = (\<lambda>a. TOWERS ! (if a < 3 then a else 0)),
      fresh = 3,
      events = []\<rparr>"

definition enemy0 :: Enemy where
  "enemy0 = \<lparr>archetype = SENTINEL, hp = 30, maxHp = 30, speed = 3.65, en_t = 0.5,
             en_x = 375, en_y = 300, en_active = True\<rparr>"

text \<open>
  A wave whose last enemy is about to reach the core: nothing is left to spawn and the only
  enemy stands at \<open>t = 0.9999\<close>.
\<close>

definition scene_last_enemy :: MainScene where
  "scene_last_enemy =
     scene0\<lparr>waveInProgress := True,
            enemies := [enemy0\<lparr>en_t := 0.9999, en_x := 799.915\<rparr>]\<rparr>"

text \<open>
  An armoured enemy with one projectile of damage 10 from each tower type in flight
  towards it.
\<close>

definition scene_hit :: MainScene where
  "scene_hit =
     scene0\<lparr>enemies := [enemy0\<lparr>archetype := GOLIATH, hp := 100, maxHp := 100\<rparr>],
            projectiles :=
              [\<lparr>pr_damage = 10, towerId = ''rapid'', target = Some 0, pr_active = True\<rparr>,
               \<lparr>pr_damage = 10, towerId = ''sniper'', target = Some 0, pr_active = True\<rparr>,
               \<lparr>pr_damage = 10, towerId = ''basic'', target = Some 0, pr_active = True\<rparr>]\<rparr>"

text \<open>The same at level 3 with the enemy down to 4 hit points, so that any hit kills.\<close>

definition scene_kill :: MainScene where
  "scene_kill =
     scene_hit\<lparr>stats := (stats scene_hit)\<lparr>level := 3\<rparr>,
               enemies := [enemy0\<lparr>archetype := GOLIATH, hp := 4, maxHp := 100\<rparr>]\<rparr>"

text \<open>The Striker selected for placement, and the same with only 50 gold.\<close>

definition scene_place :: MainScene where
  "scene_place = scene0\<lparr>currentTowerType := Some 0\<rparr>"


text \<open>
  The scene after the Striker has been placed at (400, 100) at time 1700000000000: its
  configuration is a copy at the address 3.
\<close>

definition scene_tower :: MainScene where
  "scene_tower =
     scene_place\<lparr>stats := (stats scene_place)\<lparr>gold := 400, towerCount := 1\<rparr>,
                 configs := (configs scene_place)(3 := TOWERS ! 0),
                 fresh := 4,
                 towers := [\<lparr>tw_id = ''tower-1700000000000'', tw_x = 400, tw_y = 100,
                             tw_level = 1, tw_config = 3, targetingPriority = FIRST,
                             nextFire = 0\<rparr>],
                 events := [StatsUpdate ((stats scene_place)\<lparr>gold := 400, towerCount := 1\<rparr>)]\<rparr>"

text \<open>The fresh scene at level \<open>l\<close>.\<close>

definition scene_level :: "int \<Rightarrow> MainScene" where
  "scene_level l = scene0\<lparr>stats := (stats scene0)\<lparr>level := l\<rparr>\<rparr>"

text \<open>
  Two projectiles in flight towards an enemy that is destroyed already, next to a live
  enemy; and two enemies that both reach the core in the next tick.
\<close>

definition scene_two_orphans :: MainScene where
  "scene_two_orphans =
     scene0\<lparr>enemies := [enemy0\<lparr>hp := - 2, en_active := False\<rparr>, enemy0],
            projectiles :=
              [\<lparr>pr_damage = 10, towerId = ''basic'', target = Some 0, pr_active = True\<rparr>,
               \<lparr>pr_damage = 10, towerId = ''basic'', target = Some 0, pr_active = True\<rparr>]\<rparr>"


text \<open>
  Three towers with copies of the Striker: two at (375, 200), with the priorities WEAKEST
  and STRONGEST, and one in a corner. Three active enemies of hp 30, 10 and 50 are in range
  of the first two; a fourth is out of every range and a fifth is destroyed.
\<close>

definition scene_three :: MainScene where
  "scene_three =
     scene0\<lparr>scaledTime := 1000,
            fresh := 6,
            towers :=
              [\<lparr>tw_id = ''tower-1'', tw_x = 375, tw_y = 200, tw_level = 1, tw_config = 3,
                targetingPriority = WEAKEST, nextFire = 0\<rparr>,
               \<lparr>tw_id = ''tower-2'', tw_x = 375, tw_y = 200, tw_level = 1, tw_config = 4,
                targetingPriority = STRONGEST, nextFire = 0\<rparr>,
               \<lparr>tw_id = ''tower-3'', tw_x = 700, tw_y = 550, tw_level = 1, tw_config = 5,
                targetingPriority = FIRST, nextFire = 0\<rparr>],
            enemies :=
              [enemy0\<lparr>hp := 30\<rparr>,
               enemy0\<lparr>hp := 10, en_x := 300\<rparr>,
               enemy0\<lparr>hp := 50, en_x := 450\<rparr>,
               enemy0\<lparr>hp := 5, en_x := 0\<rparr>,
               enemy0\<lparr>hp := 0, en_active := False\<rparr>]\<rparr>"


section \<open>Properties\<close>

subsection \<open>Distances\<close>

text \<open>Distances compare like their squares.\<close>

lemma Distance_Between_less_iff:
  assumes "0 \<le> r"
  shows "Distance_Between x1 y1 x2 y2 < r \<longleftrightarrow> (x1 - x2)\<^sup>2 + (y1 - y2)\<^sup>2 < r\<^sup>2"
proof -
  have "sqrt ((x1 - x2)\<^sup>2 + (y1 - y2)\<^sup>2) < r \<longleftrightarrow>
        sqrt ((x1 - x2)\<^sup>2 + (y1 - y2)\<^sup>2) < sqrt (r\<^sup>2)"
    using assms by simp
  also have "\<dots> \<longleftrightarrow> (x1 - x2)\<^sup>2 + (y1 - y2)\<^sup>2 < r\<^sup>2"
    by (rule real_sqrt_less_iff)
  finally show ?thesis
    by (simp add: Distance_Between_def Let_def power2_eq_square)
qed

lemma Distance_Between_le_iff:
  assumes "0 \<le> r"
  shows "Distance_Between x1 y1 x2 y2 \<le> r \<longleftrightarrow> (x1 - x2)\<^sup>2 + (y1 - y2)\<^sup>2 \<le> r\<^sup>2"
proof -
  have "sqrt ((x1 - x2)\<^sup>2 + (y1 - y2)\<^sup>2) \<le> r \<longleftrightarrow>
        sqrt ((x1 - x2)\<^sup>2 + (y1 - y2)\<^sup>2) \<le> sqrt (r\<^sup>2)"
    using assms by simp
  also have "\<dots> \<longleftrightarrow> (x1 - x2)\<^sup>2 + (y1 - y2)\<^sup>2 \<le> r\<^sup>2"
    by (rule real_sqrt_le_iff)
  finally show ?thesis
    by (simp add: Distance_Between_def Let_def power2_eq_square)
qed

subsection \<open>Loops over a live array\<close>

lemma forEach_done: "\<not> k < len \<Longrightarrow> forEach children f k len s = s"
  by (subst forEach.simps) simp

lemma forEach_step:
  "k < len \<Longrightarrow>
   forEach children f k len s =
     forEach children f (Suc k) len
       (if k < length (children s) then f (children s ! k) s else s)"
  by (subst forEach.simps) simp

text \<open>What no callback changes, the loop does not change.\<close>

lemma forEach_keeps:
  assumes "\<And>i u. g (f i u) = g u"
  shows "g (forEach children f k len s) = g s"
  using assms
proof (induction children f k len s rule: forEach.induct)
  case (1 children f k len s)
  show ?case
  proof (cases "k < len")
    case True
    have "g (forEach children f (Suc k) len
              (if k < length (children s) then f (children s ! k) s else s)) =
          g (if k < length (children s) then f (children s ! k) s else s)"
      by (rule "1.IH" [OF True "1.prems"])
    also have "\<dots> = g s"
      by (simp add: "1.prems")
    finally show ?thesis
      using True by (simp add: forEach_step)
  next
    case False
    then show ?thesis by (simp add: forEach_done)
  qed
qed

text \<open>The update is the composition of its blocks; the two live loops leave the towers alone.\<close>

lemma update_eq_steps:
  "update ph rnd s time delta = update_steps ph rnd s time delta"
  by (simp add: update_def update_steps_def spawnCheck_def clockAdvance_def
      completionCheck_def towersFire_def enemiesMove_def projectilesStep_def Let_def
      split: sum.splits)

lemma towers_enemiesMove: "towers (enemiesMove ph d s) = towers s"
  unfolding enemiesMove_def
  by (rule forEach_keeps) (simp add: moveEnemy_def Let_def split: option.split)

lemma towers_projectilesStep: "towers (projectilesStep s) = towers s"
  unfolding projectilesStep_def
  by (rule forEach_keeps) (simp add: stepProjectile_def Let_def split: option.split)

subsection \<open>Target selection and firing\<close>

text \<open>The candidates of a tower.\<close>

lemma inRange_set:
  "set (inRange s tower) =
     {e. e < length (enemies s) \<and> en_active (enemies s ! e)
         \<and> Distance_Between (tw_x tower) (tw_y tower)
              (en_x (enemies s ! e)) (en_y (enemies s ! e))
            \<le> cfg_range (configs s (tw_config tower))}"
  by (auto simp add: inRange_def Let_def)

lemma inRange_cong:
  "enemies u = enemies s \<Longrightarrow> configs u = configs s \<Longrightarrow> inRange u tower = inRange s tower"
  by (simp add: inRange_def)

text \<open>The two reductions by hp keep an element of least, respectively greatest, key.\<close>

lemma reduce_min:
  fixes k :: "'a \<Rightarrow> real"
  shows "foldl (\<lambda>prev curr. if k prev < k curr then prev else curr) a xs \<in> set (a # xs)
     \<and> (\<forall>x\<in>set (a # xs). k (foldl (\<lambda>prev curr. if k prev < k curr then prev else curr) a xs) \<le> k x)"
proof (induction xs arbitrary: a)
  case Nil
  show ?case by simp
next
  case (Cons x xs)
  let ?f = "\<lambda>prev curr. if k prev < k curr then prev else curr"
  have b: "k (?f a x) \<le> k a \<and> k (?f a x) \<le> k x \<and> ?f a x \<in> {a, x}"
    by simp
  have ih: "foldl ?f (?f a x) xs \<in> set (?f a x # xs)
     \<and> (\<forall>y\<in>set (?f a x # xs). k (foldl ?f (?f a x) xs) \<le> k y)"
    by (rule Cons.IH)
  have m: "foldl ?f (?f a x) xs \<in> set (a # x # xs)"
    using ih b by auto
  have le: "k (foldl ?f (?f a x) xs) \<le> k (?f a x)"
    using ih by simp
  have "\<forall>y\<in>set (a # x # xs). k (foldl ?f (?f a x) xs) \<le> k y"
  proof
    fix y assume "y \<in> set (a # x # xs)"
    then consider "y = a" | "y = x" | "y \<in> set xs" by auto
    then show "k (foldl ?f (?f a x) xs) \<le> k y"
    proof cases
      case 1 then show ?thesis using le b by (auto split: if_splits)
    next
      case 2 then show ?thesis using le b by (auto split: if_splits)
    next
      case 3 then show ?thesis using ih by simp
    qed
  qed
  with m show ?case by simp
qed

lemma reduce_max:
  fixes k :: "'a \<Rightarrow> real"
  shows "foldl (\<lambda>prev curr. if k prev > k curr then prev else curr) a xs \<in> set (a # xs)
     \<and> (\<forall>x\<in>set (a # xs). k x \<le> k (foldl (\<lambda>prev curr. if k prev > k curr then prev else curr) a xs))"
proof (induction xs arbitrary: a)
  case Nil
  show ?case by simp
next
  case (Cons x xs)
  let ?f = "\<lambda>prev curr. if k prev > k curr then prev else curr"
  have b: "k a \<le> k (?f a x) \<and> k x \<le> k (?f a x) \<and> ?f a x \<in> {a, x}"
    by simp
  have ih: "foldl ?f (?f a x) xs \<in> set (?f a x # xs)
     \<and> (\<forall>y\<in>set (?f a x # xs). k y \<le> k (foldl ?f (?f a x) xs))"
    by (rule Cons.IH)
  have m: "foldl ?f (?f a x) xs \<in> set (a # x # xs)"
    using ih b by auto
  have le: "k (?f a x) \<le> k (foldl ?f (?f a x) xs)"
    using ih by simp
  have "\<forall>y\<in>set (a # x # xs). k y \<le> k (foldl ?f (?f a x) xs)"
  proof
    fix y assume "y \<in> set (a # x # xs)"
    then consider "y = a" | "y = x" | "y \<in> set xs" by auto
    then show "k y \<le> k (foldl ?f (?f a x) xs)"
    proof cases
      case 1 then show ?thesis using le b by (auto split: if_splits)
    next
      case 2 then show ?thesis using le b by (auto split: if_splits)
    next
      case 3 then show ?thesis using ih by simp
    qed
  qed
  with m show ?case by simp
qed

lemma getPriorityTarget_None: "getPriorityTarget s tower = None \<longleftrightarrow> inRange s tower = []"
  by (simp add: getPriorityTarget_def split: list.splits TargetingPriority.splits)

lemma getPriorityTarget_weakest:
  assumes "inRange s tower \<noteq> []" and "targetingPriority tower = WEAKEST"
  shows "\<exists>e\<in>set (inRange s tower). getPriorityTarget s tower = Some e
           \<and> (\<forall>x\<in>set (inRange s tower). hp (enemies s ! e) \<le> hp (enemies s ! x))"
proof -
  obtain a xs where c: "inRange s tower = a # xs"
    using assms(1) by (cases "inRange s tower") auto
  show ?thesis
    using reduce_min [of "\<lambda>e. hp (enemies s ! e)" a xs] assms(2)
    by (simp add: getPriorityTarget_def c)
qed

lemma getPriorityTarget_strongest:
  assumes "inRange s tower \<noteq> []" and "targetingPriority tower = STRONGEST"
  shows "\<exists>e\<in>set (inRange s tower). getPriorityTarget s tower = Some e
           \<and> (\<forall>x\<in>set (inRange s tower). hp (enemies s ! x) \<le> hp (enemies s ! e))"
proof -
  obtain a xs where c: "inRange s tower = a # xs"
    using assms(1) by (cases "inRange s tower") auto
  show ?thesis
    using reduce_max [of "\<lambda>e. hp (enemies s ! e)" a xs] assms(2)
    by (simp add: getPriorityTarget_def c)
qed

text \<open>A tower with no active enemy in range does not fire.\<close>

lemma fireTower_idle:
  "inRange s (towers s ! i) = [] \<Longrightarrow> fireTower i s = s"
  by (simp add: fireTower_def Let_def getPriorityTarget_def)

lemma fireTower_frame:
  "enemies (fireTower k s) = enemies s"
  "configs (fireTower k s) = configs s"
  "k \<noteq> i \<Longrightarrow> towers (fireTower k s) ! i = towers s ! i"
  by (simp_all add: fireTower_def shoot_def Let_def split: option.split)

lemma fold_fireTower_idle:
  assumes "inRange s (towers s ! i) = []"
  shows "enemies (fold fireTower ks s) = enemies s
       \<and> configs (fold fireTower ks s) = configs s
       \<and> towers (fold fireTower ks s) ! i = towers s ! i"
  using assms
proof (induction ks arbitrary: s)
  case Nil
  show ?case by simp
next
  case (Cons k ks)
  let ?u = "fireTower k s"
  have t: "towers ?u ! i = towers s ! i"
  proof (cases "k = i")
    case True
    then show ?thesis using fireTower_idle [OF Cons.prems] by simp
  next
    case False
    then show ?thesis by (rule fireTower_frame(3))
  qed
  have "inRange ?u (towers ?u ! i) = inRange s (towers s ! i)"
    unfolding t by (rule inRange_cong) (simp_all add: fireTower_frame)
  then have "inRange ?u (towers ?u ! i) = []"
    using Cons.prems by simp
  from Cons.IH [OF this] show ?case
    by (simp add: t fireTower_frame)
qed

lemma completionCheck_frame:
  "enemies (completionCheck ph rnd s) = enemies s"
  "configs (completionCheck ph rnd s) = configs s"
  "towers (completionCheck ph rnd s) = towers s"
  by (simp_all add: completionCheck_def completeLevel_def createPath_def Let_def)

lemma update_idle:
  assumes "inRange s (towers s ! i) = []"
    and "\<not> (waveInProgress s \<and> enemiesRemaining s > 0
            \<and> scaledTime s + delta * timeScale s > nextEnemyTime s)"
  shows "\<exists>s'. update ph rnd s time delta = Inr s' \<and> towers s' ! i = towers s ! i"
proof -
  let ?c = "clockAdvance delta s"
  let ?k = "completionCheck ph rnd ?c"
  have sp: "spawnCheck ph rnd ?c = Inr ?c"
    using assms(2) by (auto simp add: spawnCheck_def clockAdvance_def)
  have res: "update ph rnd s time delta =
      Inr (projectilesStep (enemiesMove ph (delta * timeScale s) (towersFire ?k)))"
    by (simp add: update_eq_steps update_steps_def sp)
  have k: "enemies ?k = enemies s" "configs ?k = configs s" "towers ?k = towers s"
    by (simp_all add: completionCheck_frame) (simp_all add: clockAdvance_def)
  have "inRange ?k (towers ?k ! i) = inRange s (towers s ! i)"
    unfolding k(3) by (rule inRange_cong [OF k(1,2)])
  then have "inRange ?k (towers ?k ! i) = []"
    using assms(1) by simp
  then have "towers (towersFire ?k) ! i = towers ?k ! i"
    unfolding towersFire_def using fold_fireTower_idle by blast
  then show ?thesis
    by (simp add: res towers_projectilesStep towers_enemiesMove k(3))
qed

text \<open>
  C7: the candidates of a tower are the active enemies within its range. With no
  candidate the selection returns none and the tower does not fire: its firing step
  leaves the scene unchanged, and its \<open>nextFire\<close> is the same after the tower loop and,
  in a tick that spawns no enemy, after the whole update. With candidates, WEAKEST returns
  a candidate of least hp and STRONGEST one of greatest hp; among candidates of hp 30, 10
  and 50 these have hp 10 and hp 50.
\<close>

theorem getPriorityTarget_spec:
  "set (inRange s tower) =
     {e. e < length (enemies s) \<and> en_active (enemies s ! e)
         \<and> Distance_Between (tw_x tower) (tw_y tower)
              (en_x (enemies s ! e)) (en_y (enemies s ! e))
            \<le> cfg_range (configs s (tw_config tower))}
   \<and> (inRange s tower = [] \<longrightarrow> getPriorityTarget s tower = None)
   \<and> (inRange s (towers s ! i) = [] \<longrightarrow>
        fireTower i s = s
        \<and> nextFire (towers (towersFire s) ! i) = nextFire (towers s ! i)
        \<and> (\<not> (waveInProgress s \<and> enemiesRemaining s > 0
                \<and> scaledTime s + delta * timeScale s > nextEnemyTime s) \<longrightarrow>
             (\<exists>s'. update ph rnd s time delta = Inr s'
                \<and> nextFire (towers s' ! i) = nextFire (towers s ! i))))
   \<and> (inRange s tower \<noteq> [] \<and> targetingPriority tower = WEAKEST \<longrightarrow>
        (\<exists>e\<in>set (inRange s tower). getPriorityTarget s tower = Some e
           \<and> (\<forall>x\<in>set (inRange s tower). hp (enemies s ! e) \<le> hp (enemies s ! x))))
   \<and> (inRange s tower \<noteq> [] \<and> targetingPriority tower = STRONGEST \<longrightarrow>
        (\<exists>e\<in>set (inRange s tower). getPriorityTarget s tower = Some e
           \<and> (\<forall>x\<in>set (inRange s tower). hp (enemies s ! x) \<le> hp (enemies s ! e))))
   \<and> ((\<lambda>e. hp (enemies s ! e)) ` set (inRange s tower) = {30, 10, 50} \<longrightarrow>
        (targetingPriority tower = WEAKEST \<longrightarrow>
           (\<exists>e. getPriorityTarget s tower = Some e \<and> hp (enemies s ! e) = 10))
        \<and> (targetingPriority tower = STRONGEST \<longrightarrow>
           (\<exists>e. getPriorityTarget s tower = Some e \<and> hp (enemies s ! e) = 50)))"
proof (intro conjI impI)
  show "set (inRange s tower) =
     {e. e < length (enemies s) \<and> en_active (enemies s ! e)
         \<and> Distance_Between (tw_x tower) (tw_y tower)
              (en_x (enemies s ! e)) (en_y (enemies s ! e))
            \<le> cfg_range (configs s (tw_config tower))}"
    by (rule inRange_set)
next
  assume "inRange s tower = []"
  then show "getPriorityTarget s tower = None"
    by (simp add: getPriorityTarget_None)
next
  assume e: "inRange s (towers s ! i) = []"
  show "fireTower i s = s" by (rule fireTower_idle [OF e])
  show "nextFire (towers (towersFire s) ! i) = nextFire (towers s ! i)"
    unfolding towersFire_def using fold_fireTower_idle [OF e] by simp
next
  assume e: "inRange s (towers s ! i) = []"
    and n: "\<not> (waveInProgress s \<and> enemiesRemaining s > 0
                \<and> scaledTime s + delta * timeScale s > nextEnemyTime s)"
  obtain s' where "update ph rnd s time delta = Inr s'" "towers s' ! i = towers s ! i"
    using update_idle [OF e n] by blast
  then show "\<exists>s'. update ph rnd s time delta = Inr s'
                \<and> nextFire (towers s' ! i) = nextFire (towers s ! i)"
    by simp
next
  assume "inRange s tower \<noteq> [] \<and> targetingPriority tower = WEAKEST"
  then show "\<exists>e\<in>set (inRange s tower). getPriorityTarget s tower = Some e
           \<and> (\<forall>x\<in>set (inRange s tower). hp (enemies s ! e) \<le> hp (enemies s ! x))"
    using getPriorityTarget_weakest by blast
next
  assume "inRange s tower \<noteq> [] \<and> targetingPriority tower = STRONGEST"
  then show "\<exists>e\<in>set (inRange s tower). getPriorityTarget s tower = Some e
           \<and> (\<forall>x\<in>set (inRange s tower). hp (enemies s ! x) \<le> hp (enemies s ! e))"
    using getPriorityTarget_strongest by blast
next
  assume h: "(\<lambda>e. hp (enemies s ! e)) ` set (inRange s tower) = {30, 10, 50}"
    and w: "targetingPriority tower = WEAKEST"
  have ne: "inRange s tower \<noteq> []" using h by auto
  obtain e where e: "e \<in> set (inRange s tower)" "getPriorityTarget s tower = Some e"
    "\<forall>x\<in>set (inRange s tower). hp (enemies s ! e) \<le> hp (enemies s ! x)"
    using getPriorityTarget_weakest [OF ne w] by blast
  have "hp (enemies s ! e) \<in> {30, 10, 50}" using e(1) h by blast
  moreover have "\<forall>v\<in>{30, 10, 50}. hp (enemies s ! e) \<le> v"
    using e(3) h by (metis (no_types, lifting) imageE)
  ultimately have "hp (enemies s ! e) = 10" by auto
  with e(2) show "\<exists>e. getPriorityTarget s tower = Some e \<and> hp (enemies s ! e) = 10"
    by blast
next
  assume h: "(\<lambda>e. hp (enemies s ! e)) ` set (inRange s tower) = {30, 10, 50}"
    and w: "targetingPriority tower = STRONGEST"
  have ne: "inRange s tower \<noteq> []" using h by auto
  obtain e where e: "e \<in> set (inRange s tower)" "getPriorityTarget s tower = Some e"
    "\<forall>x\<in>set (inRange s tower). hp (enemies s ! x) \<le> hp (enemies s ! e)"
    using getPriorityTarget_strongest [OF ne w] by blast
  have "hp (enemies s ! e) \<in> {30, 10, 50}" using e(1) h by blast
  moreover have "\<forall>v\<in>{30, 10, 50}. v \<le> hp (enemies s ! e)"
    using e(3) h by (metis (no_types, lifting) imageE)
  ultimately have "hp (enemies s ! e) = 50" by auto
  with e(2) show "\<exists>e. getPriorityTarget s tower = Some e \<and> hp (enemies s ! e) = 50"
    by blast
qed

lemma scene_three_inRange:
  "inRange scene_three (towers scene_three ! 0) = [0, 1, 2]"
  "inRange scene_three (towers scene_three ! 1) = [0, 1, 2]"
  "inRange scene_three (towers scene_three ! 2) = []"
  by (simp_all add: inRange_def scene_three_def scene0_def enemy0_def TOWERS_def
      Distance_Between_le_iff)

theorem getPriorityTarget_spec_witness:
  "getPriorityTarget scene_three (towers scene_three ! 0) = Some 1
   \<and> getPriorityTarget scene_three (towers scene_three ! 1) = Some 2
   \<and> getPriorityTarget scene_three (towers scene_three ! 2) = None
   \<and> fireTower 2 scene_three = scene_three
   \<and> nextFire (towers (towersFire scene_three) ! 2) = 0"
proof -
  have p: "targetingPriority (towers scene_three ! 0) = WEAKEST"
    "targetingPriority (towers scene_three ! 1) = STRONGEST"
    "nextFire (towers scene_three ! 2) = 0"
    by (simp_all add: scene_three_def)
  have h: "hp (enemies scene_three ! 0) = 30" "hp (enemies scene_three ! 1) = 10"
    "hp (enemies scene_three ! 2) = 50"
    by (simp_all add: scene_three_def enemy0_def)
  have a: "getPriorityTarget scene_three (towers scene_three ! 0) = Some 1"
    using getPriorityTarget_spec [of scene_three "towers scene_three ! 0"] p h
      scene_three_inRange
    by auto
  have b: "getPriorityTarget scene_three (towers scene_three ! 1) = Some 2"
    using getPriorityTarget_spec [of scene_three "towers scene_three ! 1"] p h
      scene_three_inRange
    by auto
  have c: "getPriorityTarget scene_three (towers scene_three ! 2) = None
      \<and> fireTower 2 scene_three = scene_three
      \<and> nextFire (towers (towersFire scene_three) ! 2) = 0"
    using getPriorityTarget_spec [of scene_three "towers scene_three ! 2" 2] p
      scene_three_inRange
    by simp
  show ?thesis
    using a b c by simp
qed

subsection \<open>The order of the sub-steps of a tick\<close>




subsection \<open>Resolving a hit\<close>

lemma handleHit_hp:
  assumes "pr_active (projectiles s ! p)" and "en_active (enemies s ! e)"
    and "e < length (enemies s)"
  shows "hp (enemies (handleHit s p e) ! e) =
           hp (enemies s ! e) -
           (if archetype (enemies s ! e) = GOLIATH \<or> archetype (enemies s ! e) = BOSS then
              (if towerId (projectiles s ! p) = ''rapid''
               then pr_damage (projectiles s ! p) * 0.5
               else if towerId (projectiles s ! p) = ''sniper''
               then pr_damage (projectiles s ! p) * 1.25
               else pr_damage (projectiles s ! p))
            else pr_damage (projectiles s ! p))"
  using assms by (simp add: handleHit_def Let_def)

lemma handleHit_kill:
  assumes "pr_active (projectiles s ! p)" and "en_active (enemies s ! e)"
    and "e < length (enemies s)" and "hp (enemies (handleHit s p e) ! e) \<le> 0"
  shows "stats (handleHit s p e) =
           (stats s)\<lparr>gold := gold (stats s) + (40 + real_of_int (level (stats s)) * 8) *
                        (if archetype (enemies s ! e) = GOLIATH then 2.5
                         else if archetype (enemies s ! e) = BOSS then 10 else 1),
                     score := score (stats s) + 800 * real_of_int (level (stats s)) *
                        (if archetype (enemies s ! e) = GOLIATH then 2
                         else if archetype (enemies s ! e) = BOSS then 10 else 1)\<rparr>"
    and "\<not> en_active (enemies (handleHit s p e) ! e)"
    and "events (handleHit s p e) = events s @ [StatsUpdate (stats (handleHit s p e))]"
  using assms by (auto simp add: handleHit_def Let_def split: if_splits)

lemma reward_floor:
  "real_of_int \<lfloor>(40 + real_of_int L * 8) * 2.5\<rfloor> = (40 + real_of_int L * 8) * 2.5"
proof -
  have "(40 + real_of_int L * 8) * 2.5 = real_of_int (100 + 20 * L)" by simp
  then show ?thesis by (simp only: floor_of_int)
qed

lemma reward_floor_int:
  "real_of_int \<lfloor>(40 + real_of_int L * 8) * 10\<rfloor> = (40 + real_of_int L * 8) * 10"
  "real_of_int \<lfloor>(40 + real_of_int L * 8) * 1\<rfloor> = (40 + real_of_int L * 8) * 1"
proof -
  have "(40 + real_of_int L * 8) * 10 = real_of_int (400 + 80 * L)" by simp
  then show "real_of_int \<lfloor>(40 + real_of_int L * 8) * 10\<rfloor> = (40 + real_of_int L * 8) * 10"
    by (simp only: floor_of_int)
  have "(40 + real_of_int L * 8) * 1 = real_of_int (40 + 8 * L)" by simp
  then show "real_of_int \<lfloor>(40 + real_of_int L * 8) * 1\<rfloor> = (40 + real_of_int L * 8) * 1"
    by (simp only: floor_of_int)
qed

text \<open>
  C2: a hit of an active projectile on an active enemy subtracts from the enemy's hp the
  projectile's damage times the resistance factor: 0.5 for GOLIATH or BOSS hit from a
  "rapid" tower, 1.25 for GOLIATH or BOSS hit from a "sniper" tower, 1 otherwise. Damage 10
  against a GOLIATH takes 5 from "rapid", 12.5 from "sniper" and 10 from "basic".
\<close>

theorem handleHit_damage:
  assumes "pr_active (projectiles s ! p)" and "en_active (enemies s ! e)"
    and "e < length (enemies s)"
  shows "hp (enemies (handleHit s p e) ! e) =
           hp (enemies s ! e) - pr_damage (projectiles s ! p) *
             (if (archetype (enemies s ! e) = GOLIATH \<or> archetype (enemies s ! e) = BOSS)
                 \<and> towerId (projectiles s ! p) = ''rapid'' then 0.5
              else if (archetype (enemies s ! e) = GOLIATH \<or> archetype (enemies s ! e) = BOSS)
                 \<and> towerId (projectiles s ! p) = ''sniper'' then 1.25
              else 1)
         \<and> (pr_damage (projectiles s ! p) = 10 \<and> archetype (enemies s ! e) = GOLIATH \<longrightarrow>
              (towerId (projectiles s ! p) = ''rapid'' \<longrightarrow>
                 hp (enemies (handleHit s p e) ! e) = hp (enemies s ! e) - 5)
            \<and> (towerId (projectiles s ! p) = ''sniper'' \<longrightarrow>
                 hp (enemies (handleHit s p e) ! e) = hp (enemies s ! e) - 12.5)
            \<and> (towerId (projectiles s ! p) = ''basic'' \<longrightarrow>
                 hp (enemies (handleHit s p e) ! e) = hp (enemies s ! e) - 10))"
  by (simp add: handleHit_hp [OF assms])

theorem handleHit_damage_witness:
  "hp (enemies (handleHit scene_hit 0 0) ! 0) = 95
   \<and> hp (enemies (handleHit scene_hit 1 0) ! 0) = 87.5
   \<and> hp (enemies (handleHit scene_hit 2 0) ! 0) = 90"
proof -
  have a: "en_active (enemies scene_hit ! 0)" and l: "0 < length (enemies scene_hit)"
    and p0: "pr_active (projectiles scene_hit ! 0)"
    and p1: "pr_active (projectiles scene_hit ! 1)"
    and p2: "pr_active (projectiles scene_hit ! 2)"
    by (simp_all add: scene_hit_def scene0_def enemy0_def)
  show ?thesis
    using handleHit_damage [OF p0 a l] handleHit_damage [OF p1 a l]
      handleHit_damage [OF p2 a l]
    by (simp add: scene_hit_def scene0_def enemy0_def)
qed

text \<open>
  C3: a hit that brings the enemy's hp to 0 or below at level \<open>L\<close> adds
  \<open>floor ((40 + L * 8) * goldMult)\<close> to gold and \<open>(800 * L) * scoreMult\<close> to score, with
  the multipliers (2.5, 2) for GOLIATH, (10, 10) for BOSS and (1, 1) otherwise; at the
  levels of a run, which start at 1, both strictly increase.
\<close>

theorem handleHit_reward:
  assumes "pr_active (projectiles s ! p)" and "en_active (enemies s ! e)"
    and "e < length (enemies s)" and "hp (enemies (handleHit s p e) ! e) \<le> 0"
  shows "gold (stats (handleHit s p e)) =
           gold (stats s) +
           real_of_int \<lfloor>(40 + real_of_int (level (stats s)) * 8) *
             (if archetype (enemies s ! e) = GOLIATH then 2.5
              else if archetype (enemies s ! e) = BOSS then 10 else 1)\<rfloor>
         \<and> score (stats (handleHit s p e)) =
           score (stats s) +
           (800 * real_of_int (level (stats s))) *
             (if archetype (enemies s ! e) = GOLIATH then 2
              else if archetype (enemies s ! e) = BOSS then 10 else 1)
         \<and> (1 \<le> level (stats s) \<longrightarrow>
              gold (stats s) < gold (stats (handleHit s p e))
              \<and> score (stats s) < score (stats (handleHit s p e)))"
proof -
  let ?L = "real_of_int (level (stats s))"
  let ?a = "archetype (enemies s ! e)"
  let ?g = "if ?a = GOLIATH then 2.5 else if ?a = BOSS then 10 else (1::real)"
  let ?m = "if ?a = GOLIATH then 2 else if ?a = BOSS then 10 else (1::real)"
  have st: "stats (handleHit s p e) =
              (stats s)\<lparr>gold := gold (stats s) + (40 + ?L * 8) * ?g,
                        score := score (stats s) + 800 * ?L * ?m\<rparr>"
    by (rule handleHit_kill(1) [OF assms])
  have fl: "real_of_int \<lfloor>(40 + ?L * 8) * ?g\<rfloor> = (40 + ?L * 8) * ?g"
    using reward_floor [of "level (stats s)"] reward_floor_int [of "level (stats s)"]
    by (cases "?a = GOLIATH"; cases "?a = BOSS") simp_all
  have g: "gold (stats (handleHit s p e)) = gold (stats s) + (40 + ?L * 8) * ?g"
    by (simp add: st)
  have sc: "score (stats (handleHit s p e)) = score (stats s) + 800 * ?L * ?m"
    by (simp add: st)
  have pos: "1 \<le> level (stats s) \<Longrightarrow> 0 < (40 + ?L * 8) * ?g \<and> 0 < 800 * ?L * ?m"
    by (cases "?a = GOLIATH"; cases "?a = BOSS") simp_all
  show ?thesis
    using g sc pos by (simp only: fl) simp
qed

theorem handleHit_reward_witness:
  "gold (stats scene_kill) = 500
   \<and> gold (stats (handleHit scene_kill 0 0)) = 660
   \<and> score (stats (handleHit scene_kill 0 0)) = 4800"
proof -
  have a: "en_active (enemies scene_kill ! 0)" and l: "0 < length (enemies scene_kill)"
    and p0: "pr_active (projectiles scene_kill ! 0)"
    by (simp_all add: scene_kill_def scene_hit_def scene0_def enemy0_def)
  have k: "hp (enemies (handleHit scene_kill 0 0) ! 0) \<le> 0"
    by (simp add: handleHit_hp [OF p0 a l])
      (simp add: scene_kill_def scene_hit_def scene0_def enemy0_def)
  show ?thesis
    using handleHit_reward [OF p0 a l k]
    by (simp add: scene_kill_def scene_hit_def scene0_def enemy0_def)
qed

subsection \<open>Placing a tower\<close>

text \<open>
  The loop of \<^verbatim>\<open>checkPathProximity\<close> tests the counter values \<open>loop_t 0\<close>,
  \<open>loop_t 1\<close>, \<dots> one after the other until one is near the point or exceeds 1.
\<close>

lemma loop_unfold:
  "checkPathProximity_loop ph pth x y k =
     (loop_t k \<le> 1
      \<and> (nearSample ph pth x y (loop_t k) \<or> checkPathProximity_loop ph pth x y (Suc k)))"
  by (subst checkPathProximity_loop.simps) auto

lemma loop_iff:
  "checkPathProximity_loop ph pth x y k \<longleftrightarrow>
     (\<exists>j\<ge>k. (\<forall>i. k \<le> i \<and> i \<le> j \<longrightarrow> loop_t i \<le> 1) \<and> nearSample ph pth x y (loop_t j))"
proof (induction ph pth x y k rule: checkPathProximity_loop.induct)
  case (1 ph pth x y k)
  let ?H = "\<lambda>j. nearSample ph pth x y (loop_t j)"
  let ?R = "\<lambda>k. \<exists>j\<ge>k. (\<forall>i. k \<le> i \<and> i \<le> j \<longrightarrow> loop_t i \<le> 1) \<and> ?H j"
  show ?case
  proof (cases "loop_t k \<le> 1")
    case False
    have "\<not> ?R k"
    proof
      assume "?R k"
      then obtain j where "k \<le> j" and "\<forall>i. k \<le> i \<and> i \<le> j \<longrightarrow> loop_t i \<le> 1"
        by blast
      then have "loop_t k \<le> 1" by blast
      with False show False by simp
    qed
    with False show ?thesis by (subst loop_unfold) simp
  next
    case True
    show ?thesis
    proof (cases "?H k")
      case hit: True
      have "k \<le> k \<and> (\<forall>i. k \<le> i \<and> i \<le> k \<longrightarrow> loop_t i \<le> 1) \<and> ?H k"
        using True hit by auto
      then have "?R k" by blast
      with True hit show ?thesis by (subst loop_unfold) simp
    next
      case nohit: False
      have ih: "checkPathProximity_loop ph pth x y (Suc k) \<longleftrightarrow> ?R (Suc k)"
        by (rule 1 [OF True nohit])
      have "?R k \<longleftrightarrow> ?R (Suc k)"
      proof
        assume "?R k"
        then obtain j where j: "k \<le> j" "\<forall>i. k \<le> i \<and> i \<le> j \<longrightarrow> loop_t i \<le> 1" "?H j"
          by blast
        have "j \<noteq> k" using j(3) nohit by auto
        with j(1) have "Suc k \<le> j" by simp
        moreover have "\<forall>i. Suc k \<le> i \<and> i \<le> j \<longrightarrow> loop_t i \<le> 1"
          using j(2) by simp
        ultimately show "?R (Suc k)" using j(3) by blast
      next
        assume "?R (Suc k)"
        then obtain j where j: "Suc k \<le> j"
          "\<forall>i. Suc k \<le> i \<and> i \<le> j \<longrightarrow> loop_t i \<le> 1" "?H j"
          by blast
        have "\<forall>i. k \<le> i \<and> i \<le> j \<longrightarrow> loop_t i \<le> 1"
        proof (intro allI impI)
          fix i assume i: "k \<le> i \<and> i \<le> j"
          show "loop_t i \<le> 1"
          proof (cases "i = k")
            case True
            then show ?thesis using \<open>loop_t k \<le> 1\<close> by simp
          next
            case False
            then have "Suc k \<le> i \<and> i \<le> j" using i by simp
            then show ?thesis using j(2) by blast
          qed
        qed
        moreover have "k \<le> j" using j(1) by simp
        ultimately show "?R k" using j(3) by blast
      qed
      with ih True nohit show ?thesis by (subst loop_unfold) simp
    qed
  qed
qed

lemma checkPathProximity_iff:
  "checkPathProximity ph s x y \<longleftrightarrow>
     (\<exists>pth. path s = Some pth \<and>
        (\<exists>j. (\<forall>i\<le>j. loop_t i \<le> 1) \<and> nearSample ph pth x y (loop_t j)))"
  by (cases "path s") (simp_all add: checkPathProximity_def loop_iff)






lemma placeTower_placed:
  "currentTowerType s = Some c \<Longrightarrow>
   \<not> gold (stats s) < cfg_cost (configs s c) \<Longrightarrow> \<not> checkPathProximity ph s x y \<Longrightarrow>
   placeTower ph s x y now =
     s\<lparr>stats := (stats s)\<lparr>gold := gold (stats s) - cfg_cost (configs s c),
                          towerCount := towerCount (stats s) + 1\<rparr>,
       configs := (configs s)(fresh s := configs s c),
       fresh := fresh s + 1,
       towers := towers s @
         [\<lparr>tw_id = ''tower-'' @ decimal now, tw_x = x, tw_y = y, tw_level = 1,
           tw_config = fresh s, targetingPriority = FIRST, nextFire = 0\<rparr>],
       events := events s @
         [StatsUpdate ((stats s)\<lparr>gold := gold (stats s) - cfg_cost (configs s c),
                                 towerCount := towerCount (stats s) + 1\<rparr>)]\<rparr>"
  by (simp add: placeTower_def Let_def)


lemma ph0_far: "\<not> checkPathProximity ph0 scene0 400 100"
proof -
  have "\<not> (400 - (850 * t - 50))\<^sup>2 + (100 - 300)\<^sup>2 < (35::real)\<^sup>2" for t :: real
  proof -
    have "0 \<le> (400 - (850 * t - 50))\<^sup>2" by (rule zero_le_power2)
    moreover have "0 \<le> a \<Longrightarrow> (35::real)\<^sup>2 \<le> a + (100 - 300)\<^sup>2" for a :: real
      by simp
    ultimately have "(35::real)\<^sup>2 \<le> (400 - (850 * t - 50))\<^sup>2 + (100 - 300)\<^sup>2"
      by blast
    then show ?thesis by (simp only: not_less)
  qed
  then have "\<not> nearSample ph0 pth 400 100 t" for pth t
    by (simp add: nearSample_def ph0_def Distance_Between_less_iff)
  then show ?thesis
    by (simp add: checkPathProximity_iff)
qed




subsection \<open>Upgrading a tower\<close>

lemma find_index_None:
  "find P [0..<n] = None \<longleftrightarrow> (\<forall>i<n. \<not> P i)"
  by (auto simp add: find_None_iff)

lemma find_index_Some:
  "find P [0..<n] = Some i \<longleftrightarrow> i < n \<and> P i \<and> (\<forall>j<i. \<not> P j)"
  by (auto simp add: find_Some_iff)

lemma upgradeTower_absent:
  assumes "\<forall>i<length (towers s). tw_id (towers s ! i) \<noteq> twId"
  shows "upgradeTower s twId = s"
proof -
  have "find (\<lambda>i. tw_id (towers s ! i) = twId) [0..<length (towers s)] = None"
    using assms by (simp add: find_index_None)
  then show ?thesis by (simp add: upgradeTower_def)
qed

lemma upgradeTower_found:
  assumes "i < length (towers s)" and "tw_id (towers s ! i) = twId"
    and "\<forall>j<i. tw_id (towers s ! j) \<noteq> twId"
  shows "upgradeTower s twId =
     selectTower
       (s\<lparr>towers := (towers s)[i := (towers s ! i)\<lparr>tw_level := tw_level (towers s ! i) + 1\<rparr>],
          configs := (configs s)(tw_config (towers s ! i) :=
            (configs s (tw_config (towers s ! i)))
              \<lparr>cfg_damage := real_of_int \<lfloor>cfg_damage (configs s (tw_config (towers s ! i))) * 1.5\<rfloor>,
               cfg_fireRate := real_of_int \<lfloor>cfg_fireRate (configs s (tw_config (towers s ! i))) * 0.85\<rfloor>\<rparr>)\<rparr>) i"
proof -
  have "find (\<lambda>i. tw_id (towers s ! i) = twId) [0..<length (towers s)] = Some i"
    using assms by (simp add: find_index_Some)
  then show ?thesis by (simp add: upgradeTower_def Let_def)
qed

lemma upgradeTower_once:
  assumes "i < length (towers s)" and "tw_id (towers s ! i) = twId"
    and "\<forall>j<i. tw_id (towers s ! j) \<noteq> twId"
  shows "length (towers (upgradeTower s twId)) = length (towers s)"
    and "map tw_id (towers (upgradeTower s twId)) = map tw_id (towers s)"
    and "tw_config (towers (upgradeTower s twId) ! i) = tw_config (towers s ! i)"
    and "tw_level (towers (upgradeTower s twId) ! i) = tw_level (towers s ! i) + 1"
    and "cfg_damage (configs (upgradeTower s twId) (tw_config (towers s ! i))) =
           real_of_int \<lfloor>cfg_damage (configs s (tw_config (towers s ! i))) * 1.5\<rfloor>"
    and "cfg_fireRate (configs (upgradeTower s twId) (tw_config (towers s ! i))) =
           real_of_int \<lfloor>cfg_fireRate (configs s (tw_config (towers s ! i))) * 0.85\<rfloor>"
    and "stats (upgradeTower s twId) = stats s"
    and "a \<noteq> tw_config (towers s ! i) \<Longrightarrow> configs (upgradeTower s twId) a = configs s a"
    and "j \<noteq> i \<Longrightarrow> towers (upgradeTower s twId) ! j = towers s ! j"
  using assms(1)
  by (simp_all add: upgradeTower_found [OF assms] selectTower_def Let_def map_update
      list_update_same_conv)

lemma upgradeTower_iterate:
  assumes "i < length (towers s)" and "tw_id (towers s ! i) = twId"
    and "\<forall>j<i. tw_id (towers s ! j) \<noteq> twId"
  shows "map tw_id (towers (((\<lambda>u. upgradeTower u twId) ^^ N) s)) = map tw_id (towers s)
       \<and> tw_config (towers (((\<lambda>u. upgradeTower u twId) ^^ N) s) ! i) = tw_config (towers s ! i)
       \<and> tw_level (towers (((\<lambda>u. upgradeTower u twId) ^^ N) s) ! i) =
           tw_level (towers s ! i) + int N
       \<and> cfg_damage (configs (((\<lambda>u. upgradeTower u twId) ^^ N) s) (tw_config (towers s ! i))) =
           ((\<lambda>d. real_of_int \<lfloor>d * 1.5\<rfloor>) ^^ N) (cfg_damage (configs s (tw_config (towers s ! i))))
       \<and> cfg_fireRate (configs (((\<lambda>u. upgradeTower u twId) ^^ N) s) (tw_config (towers s ! i))) =
           ((\<lambda>r. real_of_int \<lfloor>r * 0.85\<rfloor>) ^^ N)
             (cfg_fireRate (configs s (tw_config (towers s ! i))))
       \<and> stats (((\<lambda>u. upgradeTower u twId) ^^ N) s) = stats s"
proof (induction N)
  case 0
  show ?case by simp
next
  case (Suc N)
  let ?u = "((\<lambda>u. upgradeTower u twId) ^^ N) s"
  have ids: "map tw_id (towers ?u) = map tw_id (towers s)"
    using Suc.IH by simp
  then have len: "length (towers ?u) = length (towers s)"
    by (rule map_eq_imp_length_eq)
  have idj: "tw_id (towers ?u ! j) = tw_id (towers s ! j)" if "j < length (towers s)" for j
    using that len nth_map [of j "towers ?u" tw_id] nth_map [of j "towers s" tw_id] ids
    by simp
  have a1: "i < length (towers ?u)" using assms(1) len by simp
  have a2: "tw_id (towers ?u ! i) = twId" using idj [OF assms(1)] assms(2) by simp
  have a3: "\<forall>j<i. tw_id (towers ?u ! j) \<noteq> twId"
    using assms(1,3) idj by simp
  have cf: "tw_config (towers ?u ! i) = tw_config (towers s ! i)"
    using Suc.IH by simp
  have step: "((\<lambda>u. upgradeTower u twId) ^^ Suc N) s = upgradeTower ?u twId"
    by simp
  show ?case
    unfolding step
    using upgradeTower_once(2-7) [OF a1 a2 a3] Suc.IH
    by (simp add: cf)
qed

text \<open>
  C5: \<^verbatim>\<open>upgradeTower\<close> leaves the scene unchanged when no tower carries the id. When
  one does, the first such tower gains a level, its damage becomes \<open>floor (damage * 1.5)\<close>
  and its fire rate \<open>floor (fireRate * 0.85)\<close>, whatever the gold and the level are, and
  the stats (the gold among them) stay as they were; \<open>N\<close> upgrades apply the two
  truncating steps \<open>N\<close> times and raise the level by \<open>N\<close>.
\<close>

theorem upgradeTower_spec:
  "((\<forall>i<length (towers s). tw_id (towers s ! i) \<noteq> twId) \<longrightarrow> upgradeTower s twId = s)
   \<and> (i < length (towers s) \<and> tw_id (towers s ! i) = twId
        \<and> (\<forall>j<i. tw_id (towers s ! j) \<noteq> twId) \<longrightarrow>
      tw_level (towers (upgradeTower s twId) ! i) = tw_level (towers s ! i) + 1
      \<and> cfg_damage (configs (upgradeTower s twId) (tw_config (towers s ! i))) =
          real_of_int \<lfloor>cfg_damage (configs s (tw_config (towers s ! i))) * 1.5\<rfloor>
      \<and> cfg_fireRate (configs (upgradeTower s twId) (tw_config (towers s ! i))) =
          real_of_int \<lfloor>cfg_fireRate (configs s (tw_config (towers s ! i))) * 0.85\<rfloor>
      \<and> stats (upgradeTower s twId) = stats s
      \<and> tw_level (towers (((\<lambda>u. upgradeTower u twId) ^^ N) s) ! i) =
          tw_level (towers s ! i) + int N
      \<and> cfg_damage (configs (((\<lambda>u. upgradeTower u twId) ^^ N) s) (tw_config (towers s ! i))) =
          ((\<lambda>d. real_of_int \<lfloor>d * 1.5\<rfloor>) ^^ N)
            (cfg_damage (configs s (tw_config (towers s ! i))))
      \<and> cfg_fireRate (configs (((\<lambda>u. upgradeTower u twId) ^^ N) s) (tw_config (towers s ! i))) =
          ((\<lambda>r. real_of_int \<lfloor>r * 0.85\<rfloor>) ^^ N)
            (cfg_fireRate (configs s (tw_config (towers s ! i)))))"
proof (intro conjI impI)
  assume "\<forall>i<length (towers s). tw_id (towers s ! i) \<noteq> twId"
  then show "upgradeTower s twId = s" by (rule upgradeTower_absent)
next
  assume f: "i < length (towers s) \<and> tw_id (towers s ! i) = twId
        \<and> (\<forall>j<i. tw_id (towers s ! j) \<noteq> twId)"
  then have a: "i < length (towers s)" "tw_id (towers s ! i) = twId"
    "\<forall>j<i. tw_id (towers s ! j) \<noteq> twId"
    by simp_all
  show "tw_level (towers (upgradeTower s twId) ! i) = tw_level (towers s ! i) + 1"
    by (rule upgradeTower_once(4) [OF a])
  show "cfg_damage (configs (upgradeTower s twId) (tw_config (towers s ! i))) =
          real_of_int \<lfloor>cfg_damage (configs s (tw_config (towers s ! i))) * 1.5\<rfloor>"
    by (rule upgradeTower_once(5) [OF a])
  show "cfg_fireRate (configs (upgradeTower s twId) (tw_config (towers s ! i))) =
          real_of_int \<lfloor>cfg_fireRate (configs s (tw_config (towers s ! i))) * 0.85\<rfloor>"
    by (rule upgradeTower_once(6) [OF a])
  show "stats (upgradeTower s twId) = stats s"
    by (rule upgradeTower_once(7) [OF a])
  show "tw_level (towers (((\<lambda>u. upgradeTower u twId) ^^ N) s) ! i) =
          tw_level (towers s ! i) + int N"
    using upgradeTower_iterate [OF a, of N] by simp
  show "cfg_damage (configs (((\<lambda>u. upgradeTower u twId) ^^ N) s) (tw_config (towers s ! i))) =
          ((\<lambda>d. real_of_int \<lfloor>d * 1.5\<rfloor>) ^^ N)
            (cfg_damage (configs s (tw_config (towers s ! i))))"
    using upgradeTower_iterate [OF a, of N] by simp
  show "cfg_fireRate (configs (((\<lambda>u. upgradeTower u twId) ^^ N) s) (tw_config (towers s ! i))) =
          ((\<lambda>r. real_of_int \<lfloor>r * 0.85\<rfloor>) ^^ N)
            (cfg_fireRate (configs s (tw_config (towers s ! i))))"
    using upgradeTower_iterate [OF a, of N] by simp
qed

theorem upgradeTower_spec_witness:
  "upgradeTower scene_tower ''tower-1'' = scene_tower
   \<and> cfg_damage (configs (upgradeTower scene_tower ''tower-1700000000000'') 3) = 15
   \<and> cfg_fireRate (configs (upgradeTower scene_tower ''tower-1700000000000'') 3) = 680
   \<and> tw_level (towers (((\<lambda>u. upgradeTower u ''tower-1700000000000'') ^^ 3) scene_tower) ! 0) = 4
   \<and> cfg_damage (configs (((\<lambda>u. upgradeTower u ''tower-1700000000000'') ^^ 3) scene_tower) 3) = 33
   \<and> cfg_fireRate (configs (((\<lambda>u. upgradeTower u ''tower-1700000000000'') ^^ 3) scene_tower) 3)
       = 491"
proof -
  have n: "\<forall>i<length (towers scene_tower). tw_id (towers scene_tower ! i) \<noteq> ''tower-1''"
    by (simp add: scene_tower_def)
  have f: "0 < length (towers scene_tower)
      \<and> tw_id (towers scene_tower ! 0) = ''tower-1700000000000''
      \<and> (\<forall>j<0. tw_id (towers scene_tower ! j) \<noteq> ''tower-1700000000000'')"
    by (simp add: scene_tower_def)
  have c: "tw_config (towers scene_tower ! 0) = 3"
    "cfg_damage (configs scene_tower 3) = 10" "cfg_fireRate (configs scene_tower 3) = 800"
    "tw_level (towers scene_tower ! 0) = 1"
    by (simp_all add: scene_tower_def TOWERS_def)
  have d: "((\<lambda>d::real. real_of_int \<lfloor>d * 1.5\<rfloor>) ^^ 3) 10 = 33"
    "((\<lambda>r::real. real_of_int \<lfloor>r * 0.85\<rfloor>) ^^ 3) 800 = 491"
    by (simp_all add: numeral_3_eq_3)
  show ?thesis
    using upgradeTower_spec [of scene_tower "''tower-1''" 0 3] n
      upgradeTower_spec [of scene_tower "''tower-1700000000000''" 0 3] f d
    by (simp add: c)
qed

subsection \<open>Starting a wave and completing a level\<close>

lemma startWave_started:
  "\<not> waveInProgress s \<Longrightarrow>
   startWave s =
     s\<lparr>waveInProgress := True,
       stats := (stats s)\<lparr>waveActive := True\<rparr>,
       enemiesRemaining :=
         (if level (stats s) mod 10 = 0 then max 1 \<lfloor>real_of_int (level (stats s)) / 5\<rfloor>
          else 20 + \<lfloor>real_of_int (level (stats s)) * 8\<rfloor>),
       events := events s @ [StatsUpdate ((stats s)\<lparr>waveActive := True\<rparr>)]\<rparr>"
  by (simp add: startWave_def Let_def)

text \<open>
  C6: \<^verbatim>\<open>startWave\<close> leaves the scene unchanged while a wave is in progress; otherwise it
  sets \<open>waveInProgress\<close> and sets \<open>enemiesRemaining\<close> to \<open>max 1 (floor (level / 5))\<close> at a
  level divisible by 10 and to \<open>20 + floor (level * 8)\<close> at any other level: 28 at level 1
  and 2 at level 10.
\<close>

theorem startWave_spec:
  "(waveInProgress s \<longrightarrow> startWave s = s)
   \<and> (\<not> waveInProgress s \<longrightarrow>
        waveInProgress (startWave s)
        \<and> waveActive (stats (startWave s))
        \<and> enemiesRemaining (startWave s) =
            (if level (stats s) mod 10 = 0 then max 1 \<lfloor>real_of_int (level (stats s)) / 5\<rfloor>
             else 20 + \<lfloor>real_of_int (level (stats s)) * 8\<rfloor>)
        \<and> enemiesRemaining (startWave s) =
            (if level (stats s) mod 10 = 0 then max 1 (level (stats s) div 5)
             else 20 + level (stats s) * 8)
        \<and> (level (stats s) = 1 \<longrightarrow> enemiesRemaining (startWave s) = 28)
        \<and> (level (stats s) = 10 \<longrightarrow> enemiesRemaining (startWave s) = 2))"
proof (intro conjI impI)
  assume "waveInProgress s"
  then show "startWave s = s" by (simp add: startWave_def)
next
  assume n: "\<not> waveInProgress s"
  have d: "\<lfloor>real_of_int (level (stats s)) / 5\<rfloor> = level (stats s) div 5"
    using floor_divide_of_int_eq [of "level (stats s)" 5, where ?'a = real] by simp
  have m: "\<lfloor>real_of_int (level (stats s)) * 8\<rfloor> = level (stats s) * 8"
  proof -
    have "real_of_int (level (stats s)) * 8 = real_of_int (level (stats s) * 8)" by simp
    then show ?thesis by (simp only: floor_of_int)
  qed
  show "waveInProgress (startWave s)" by (simp add: startWave_started [OF n])
  show "waveActive (stats (startWave s))" by (simp add: startWave_started [OF n])
  show r: "enemiesRemaining (startWave s) =
            (if level (stats s) mod 10 = 0 then max 1 \<lfloor>real_of_int (level (stats s)) / 5\<rfloor>
             else 20 + \<lfloor>real_of_int (level (stats s)) * 8\<rfloor>)"
    by (simp add: startWave_started [OF n])
  show i: "enemiesRemaining (startWave s) =
            (if level (stats s) mod 10 = 0 then max 1 (level (stats s) div 5)
             else 20 + level (stats s) * 8)"
    unfolding r d m ..
  show "enemiesRemaining (startWave s) = 28" if "level (stats s) = 1"
    unfolding i using that by simp
  show "enemiesRemaining (startWave s) = 2" if "level (stats s) = 10"
    unfolding i using that by simp
qed

theorem startWave_spec_witness:
  "startWave scene_last_enemy = scene_last_enemy
   \<and> enemiesRemaining (startWave scene0) = 28
   \<and> enemiesRemaining (startWave (scene_level 10)) = 2
   \<and> enemiesRemaining (startWave (scene_level 30)) = 6
   \<and> enemiesRemaining (startWave (scene_level 29)) = 252"
proof -
  have p: "waveInProgress scene_last_enemy"
    by (simp add: scene_last_enemy_def)
  have n: "\<not> waveInProgress scene0" "\<not> waveInProgress (scene_level l)" for l
    by (simp_all add: scene_level_def scene0_def)
  have l: "level (stats scene0) = 1" "level (stats (scene_level l)) = l" for l
    by (simp_all add: scene_level_def scene0_def)
  show ?thesis
    using startWave_spec [of scene_last_enemy] startWave_spec [of scene0]
      startWave_spec [of "scene_level 10"] startWave_spec [of "scene_level 30"]
      startWave_spec [of "scene_level 29"]
    by (simp add: p n l)
qed

lemma completeLevel_win:
  "level (stats s) + 1 > 30 \<Longrightarrow>
   completeLevel ph rnd s =
     s\<lparr>waveInProgress := False,
       stats := (stats s)\<lparr>waveActive := False, level := level (stats s) + 1,
                  gold := gold (stats s) + (350 + real_of_int (level (stats s) + 1) * 60)\<rparr>,
       events := events s @
         [StatsUpdate ((stats s)\<lparr>waveActive := False, level := level (stats s) + 1,
                  gold := gold (stats s) + (350 + real_of_int (level (stats s) + 1) * 60)\<rparr>),
          GameOver]\<rparr>"
  by (simp add: completeLevel_def Let_def)

lemma completeLevel_next:
  "\<not> level (stats s) + 1 > 30 \<Longrightarrow>
   completeLevel ph rnd s =
     s\<lparr>waveInProgress := False,
       stats := (stats s)\<lparr>waveActive := False, level := level (stats s) + 1,
                  gold := gold (stats s) + (350 + real_of_int (level (stats s) + 1) * 60)\<rparr>,
       events := events s @
         [StatsUpdate ((stats s)\<lparr>waveActive := False, level := level (stats s) + 1,
                  gold := gold (stats s) + (350 + real_of_int (level (stats s) + 1) * 60)\<rparr>)],
       path := Some ((- 50, scale_height ph / 2) #
         map (\<lambda>i. ((scale_width ph /
                      real_of_int (min (3 + \<lfloor>real_of_int (level (stats s) + 1) / 2.5\<rfloor>) 15))
                      * real_of_int i,
                    if i = min (3 + \<lfloor>real_of_int (level (stats s) + 1) / 2.5\<rfloor>) 15
                    then scale_height ph / 2 else Math_Between rnd i))
             [1..min (3 + \<lfloor>real_of_int (level (stats s) + 1) / 2.5\<rfloor>) 15])\<rparr>"
  by (simp add: completeLevel_def createPath_def Let_def)

text \<open>
  C8: \<^verbatim>\<open>completeLevel\<close> clears the wave, increments the level and adds
  \<open>350 + level * 60\<close> gold for the incremented level. When the incremented level exceeds
  30 (it was called at level 30) it reports the stats with level 31 and calls the
  game-over callback, which the application shows as the win, and keeps the path;
  otherwise it replaces the path by a new one of
  \<open>segments = min (3 + floor (newLevel / 2.5)) 15\<close> segments, from the entry point to
  the core at mid height.
\<close>

theorem completeLevel_spec:
  "\<not> waveInProgress (completeLevel ph rnd s)
   \<and> \<not> waveActive (stats (completeLevel ph rnd s))
   \<and> level (stats (completeLevel ph rnd s)) = level (stats s) + 1
   \<and> gold (stats (completeLevel ph rnd s)) =
       gold (stats s) + (350 + real_of_int (level (stats s) + 1) * 60)
   \<and> (level (stats s) + 1 > 30 \<longrightarrow>
        events (completeLevel ph rnd s) =
          events s @ [StatsUpdate (stats (completeLevel ph rnd s)), GameOver]
        \<and> path (completeLevel ph rnd s) = path s)
   \<and> (level (stats s) = 30 \<longrightarrow>
        level (stats (completeLevel ph rnd s)) = 31
        \<and> last (events (completeLevel ph rnd s)) = GameOver
        \<and> path (completeLevel ph rnd s) = path s)
   \<and> (\<not> level (stats s) + 1 > 30 \<longrightarrow>
        events (completeLevel ph rnd s) =
          events s @ [StatsUpdate (stats (completeLevel ph rnd s))]
        \<and> (\<exists>pts. path (completeLevel ph rnd s) = Some pts
             \<and> length pts =
                 nat (min (3 + \<lfloor>real_of_int (level (stats s) + 1) / 2.5\<rfloor>) 15) + 1
             \<and> hd pts = (- 50, scale_height ph / 2)
             \<and> (0 \<le> level (stats s) \<longrightarrow> last pts = (scale_width ph, scale_height ph / 2))))"
proof (cases "level (stats s) + 1 > 30")
  case True
  show ?thesis
    using True by (simp add: completeLevel_win [OF True])
next
  case False
  let ?n = "min (3 + \<lfloor>real_of_int (level (stats s) + 1) / 2.5\<rfloor>) 15"
  have pos: "0 \<le> level (stats s) \<Longrightarrow> 3 \<le> ?n"
  proof -
    assume "0 \<le> level (stats s)"
    then have "0 \<le> real_of_int (level (stats s) + 1) / 2.5" by simp
    then have "0 \<le> \<lfloor>real_of_int (level (stats s) + 1) / 2.5\<rfloor>" by (simp only: zero_le_floor)
    then show ?thesis by simp
  qed
  have lst: "0 \<le> level (stats s) \<Longrightarrow> [1..?n] \<noteq> [] \<and> last [1..?n] = ?n"
    using pos by (simp add: upto_rec2)
  have nz: "0 \<le> level (stats s) \<Longrightarrow> real_of_int ?n \<noteq> 0"
    using pos by linarith
  show ?thesis
    using False lst nz
    by (simp add: completeLevel_next [OF False] last_map del: min_less_iff_conj)
qed

theorem completeLevel_spec_witness:
  "level (stats (completeLevel ph0 rnd0 (scene_level 30))) = 31
   \<and> last (events (completeLevel ph0 rnd0 (scene_level 30))) = GameOver
   \<and> path (completeLevel ph0 rnd0 (scene_level 30)) = path (scene_level 30)
   \<and> gold (stats (completeLevel ph0 rnd0 scene0)) = 970
   \<and> (\<exists>pts. path (completeLevel ph0 rnd0 scene0) = Some pts \<and> length pts = 4
         \<and> last pts = (800, 300))
   \<and> (\<exists>pts. path (completeLevel ph0 rnd0 (scene_level 29)) = Some pts \<and> length pts = 16)"
proof -
  have l: "level (stats scene0) = 1" "level (stats (scene_level l)) = l" for l
    by (simp_all add: scene_level_def scene0_def)
  have g: "gold (stats scene0) = 500"
    by (simp add: scene0_def)
  have w: "scale_width ph0 = 800" "scale_height ph0 = 600"
    by (simp_all add: ph0_def)
  have a: "level (stats (completeLevel ph0 rnd0 (scene_level 30))) = 31
      \<and> last (events (completeLevel ph0 rnd0 (scene_level 30))) = GameOver
      \<and> path (completeLevel ph0 rnd0 (scene_level 30)) = path (scene_level 30)"
    using completeLevel_spec [of ph0 rnd0 "scene_level 30"] by (simp add: l)
  have b: "gold (stats (completeLevel ph0 rnd0 scene0)) = 970
      \<and> (\<exists>pts. path (completeLevel ph0 rnd0 scene0) = Some pts \<and> length pts = 4
         \<and> last pts = (800, 300))"
    using completeLevel_spec [of ph0 rnd0 scene0] by (auto simp add: l g w)
  have c: "\<exists>pts. path (completeLevel ph0 rnd0 (scene_level 29)) = Some pts \<and> length pts = 16"
    using completeLevel_spec [of ph0 rnd0 "scene_level 29"] by (auto simp add: l w)
  show ?thesis
    using a b c by simp
qed

subsection \<open>Ownership of tower configurations\<close>

lemma separate_placed:
  assumes "separate s T"
  shows "separate
     (s\<lparr>stats := st, configs := cf, fresh := fresh s + 1,
        towers := towers s @
          [\<lparr>tw_id = n, tw_x = x, tw_y = y, tw_level = 1, tw_config = fresh s,
            targetingPriority = FIRST, nextFire = 0\<rparr>],
        events := ev\<rparr>) T"
  using assms by (auto simp add: separate_def list_all_iff less_Suc_eq)

lemma separate_nth:
  assumes "separate s T" and "i < length (towers s)" and "j < length (towers s)" and "j \<noteq> i"
  shows "tw_config (towers s ! j) \<noteq> tw_config (towers s ! i)"
proof -
  have d: "distinct (map tw_config (towers s))" using assms(1) by (simp add: separate_def)
  have "(map tw_config (towers s) ! j = map tw_config (towers s) ! i) = (j = i)"
    by (rule nth_eq_iff_index_eq [OF d]) (simp_all add: assms)
  then show ?thesis using assms(2-4) by simp
qed

lemma separate_table:
  assumes "separate s T" and "i < length (towers s)" and "a \<in> T"
  shows "a \<noteq> tw_config (towers s ! i)"
  using assms by (auto simp add: separate_def list_all_iff)

text \<open>
  C10: right after a successful placement the new tower has level 1, \<open>nextFire\<close> 0 and
  the priority FIRST, and its configuration is a new object holding a copy of the selected
  archetype configuration; no existing configuration object changes. Towers keep their
  configurations apart, so an upgrade, which rewrites the configuration of the upgraded
  tower only, leaves the configuration of every other tower and the static table as they
  were.
\<close>

theorem placeTower_config_copy:
  assumes "currentTowerType s = Some c"
    and "\<not> gold (stats s) < cfg_cost (configs s c)"
    and "\<not> checkPathProximity ph s x y"
    and "separate s T" and "c \<in> T"
  shows "tw_level (last (towers (placeTower ph s x y now))) = 1
       \<and> nextFire (last (towers (placeTower ph s x y now))) = 0
       \<and> targetingPriority (last (towers (placeTower ph s x y now))) = FIRST
       \<and> targetingPriority (last (towers (placeTower ph s x y now))) \<noteq> CLOSEST
       \<and> tw_config (last (towers (placeTower ph s x y now))) = fresh s
       \<and> tw_config (last (towers (placeTower ph s x y now))) \<noteq> c
       \<and> configs (placeTower ph s x y now) (fresh s) = configs s c
       \<and> (\<forall>a. a \<noteq> fresh s \<longrightarrow> configs (placeTower ph s x y now) a = configs s a)
       \<and> separate (placeTower ph s x y now) T
       \<and> (\<forall>twId i. i < length (towers (placeTower ph s x y now))
            \<and> tw_id (towers (placeTower ph s x y now) ! i) = twId
            \<and> (\<forall>j<i. tw_id (towers (placeTower ph s x y now) ! j) \<noteq> twId) \<longrightarrow>
            (\<forall>j<length (towers (placeTower ph s x y now)). j \<noteq> i \<longrightarrow>
               towers (upgradeTower (placeTower ph s x y now) twId) ! j =
                 towers (placeTower ph s x y now) ! j
               \<and> configs (upgradeTower (placeTower ph s x y now) twId)
                   (tw_config (towers (placeTower ph s x y now) ! j)) =
                 configs (placeTower ph s x y now)
                   (tw_config (towers (placeTower ph s x y now) ! j)))
            \<and> (\<forall>a\<in>T. configs (upgradeTower (placeTower ph s x y now) twId) a = configs s a))"
proof -
  let ?s = "placeTower ph s x y now"
  note p = placeTower_placed [OF assms(1-3), of now]
  have lt: "c < fresh s" using assms(4,5) by (simp add: separate_def)
  have sep: "separate ?s T"
    unfolding p by (rule separate_placed [OF assms(4)])
  have old: "configs ?s a = configs s a" if "a \<noteq> fresh s" for a
    using that by (simp add: p)
  have tab: "configs ?s a = configs s a" if "a \<in> T" for a
  proof -
    have "a < fresh s" using assms(4) that by (simp add: separate_def)
    then show ?thesis by (simp add: old)
  qed
  have up: "(\<forall>j<length (towers ?s). j \<noteq> i \<longrightarrow>
               towers (upgradeTower ?s twId) ! j = towers ?s ! j
               \<and> configs (upgradeTower ?s twId) (tw_config (towers ?s ! j)) =
                 configs ?s (tw_config (towers ?s ! j)))
            \<and> (\<forall>a\<in>T. configs (upgradeTower ?s twId) a = configs s a)"
    if f: "i < length (towers ?s) \<and> tw_id (towers ?s ! i) = twId
            \<and> (\<forall>j<i. tw_id (towers ?s ! j) \<noteq> twId)" for twId i
  proof (intro conjI allI impI ballI)
    from f have a: "i < length (towers ?s)" "tw_id (towers ?s ! i) = twId"
      "\<forall>j<i. tw_id (towers ?s ! j) \<noteq> twId"
      by simp_all
    fix j assume j: "j < length (towers ?s)" "j \<noteq> i"
    show "towers (upgradeTower ?s twId) ! j = towers ?s ! j"
      by (rule upgradeTower_once(9) [OF a j(2)])
    show "configs (upgradeTower ?s twId) (tw_config (towers ?s ! j)) =
            configs ?s (tw_config (towers ?s ! j))"
      by (rule upgradeTower_once(8) [OF a separate_nth [OF sep a(1) j]])
  next
    from f have a: "i < length (towers ?s)" "tw_id (towers ?s ! i) = twId"
      "\<forall>j<i. tw_id (towers ?s ! j) \<noteq> twId"
      by simp_all
    fix b assume b: "b \<in> T"
    have "configs (upgradeTower ?s twId) b = configs ?s b"
      by (rule upgradeTower_once(8) [OF a separate_table [OF sep a(1) b]])
    then show "configs (upgradeTower ?s twId) b = configs s b"
      by (simp add: tab [OF b])
  qed
  have new: "tw_level (last (towers ?s)) = 1 \<and> nextFire (last (towers ?s)) = 0
       \<and> targetingPriority (last (towers ?s)) = FIRST
       \<and> targetingPriority (last (towers ?s)) \<noteq> CLOSEST
       \<and> tw_config (last (towers ?s)) = fresh s
       \<and> tw_config (last (towers ?s)) \<noteq> c
       \<and> configs ?s (fresh s) = configs s c"
    using lt by (simp add: p)
  show ?thesis
    using new old sep up by blast
qed

theorem placeTower_config_copy_witness:
  "tw_level (last (towers (placeTower ph0 scene_place 400 100 1700000000000))) = 1
   \<and> tw_config (last (towers (placeTower ph0 scene_place 400 100 1700000000000))) = 3
   \<and> configs (placeTower ph0 scene_place 400 100 1700000000000) 3 = TOWERS ! 0
   \<and> configs (upgradeTower (placeTower ph0 scene_place 400 100 1700000000000)
        (tw_id (last (towers (placeTower ph0 scene_place 400 100 1700000000000))))) 0
       = TOWERS ! 0
   \<and> cfg_damage (configs (upgradeTower (placeTower ph0 scene_place 400 100 1700000000000)
        (tw_id (last (towers (placeTower ph0 scene_place 400 100 1700000000000))))) 3)
       = 15"
proof -
  let ?P = "placeTower ph0 scene_place 400 100 1700000000000"
  have c: "currentTowerType scene_place = Some 0"
    by (simp add: scene_place_def)
  have far: "\<not> checkPathProximity ph0 scene_place 400 100"
    using ph0_far by (simp add: checkPathProximity_def scene_place_def)
  have rich: "\<not> gold (stats scene_place) < cfg_cost (configs scene_place 0)"
    by (simp add: scene_place_def scene0_def TOWERS_def)
  have sep: "separate scene_place {0, 1, 2}"
    by (simp add: separate_def scene_place_def scene0_def)
  have t: "(0::nat) \<in> {0, 1, 2}" by simp
  note th = placeTower_config_copy [OF c rich far sep t, of 1700000000000]
  have v: "fresh scene_place = 3" "configs scene_place 0 = TOWERS ! 0"
    by (simp_all add: scene_place_def scene0_def)
  have e: "towers scene_place = []"
    by (simp add: scene_place_def scene0_def)
  have one: "length (towers ?P) = 1"
    by (simp add: placeTower_placed [OF c rich far] e)
  then have lst: "last (towers ?P) = towers ?P ! 0"
    by (cases "towers ?P") (simp_all add: last_conv_nth)
  have f: "0 < length (towers ?P) \<and> tw_id (towers ?P ! 0) = tw_id (last (towers ?P))
      \<and> (\<forall>j<0. tw_id (towers ?P ! j) \<noteq> tw_id (last (towers ?P)))"
    using one lst by simp
  have tab: "configs (upgradeTower ?P (tw_id (last (towers ?P)))) 0 = TOWERS ! 0"
    using th f t v(2) by metis
  have cf: "tw_config (towers ?P ! 0) = 3" "cfg_damage (configs ?P 3) = 10"
    using th lst v by (simp_all add: TOWERS_def)
  have dmg: "cfg_damage (configs (upgradeTower ?P (tw_id (last (towers ?P)))) 3) = 15"
    using upgradeTower_once(5) [of 0 ?P "tw_id (last (towers ?P))"] f cf by simp
  show ?thesis
    using th tab dmg v by simp
qed

subsection \<open>Projectiles whose target is gone\<close>

text \<open>
  The part of the claim that holds: \<^verbatim>\<open>handleHit\<close> on a destroyed projectile or a
  destroyed enemy returns at line 367 and changes nothing.
\<close>

lemma handleHit_inactive:
  "\<not> pr_active (projectiles s ! p) \<or> \<not> en_active (enemies s ! e) \<Longrightarrow> handleHit s p e = s"
  by (simp add: handleHit_def Let_def)

text \<open>Moving the enemies leaves the projectiles alone.\<close>

lemma projectiles_enemiesMove: "projectiles (enemiesMove ph d s) = projectiles s"
  unfolding enemiesMove_def
  by (rule forEach_keeps) (simp add: moveEnemy_def Let_def split: option.split)

text \<open>
  The children of the projectile group are distinct and active. Destroying one removes it
  from the array; the callback of the loop does nothing else to the group.
\<close>

lemma projectileChildren_distinct: "distinct (projectileChildren s)"
  by (simp add: projectileChildren_def)

lemma projectileChildren_set:
  "i \<in> set (projectileChildren s) \<longleftrightarrow>
     i < length (projectiles s) \<and> pr_active (projectiles s ! i)"
  by (auto simp add: projectileChildren_def)

lemma projectileChildren_destroy:
  assumes "r < length (projectiles s)"
  shows "projectileChildren
           (s\<lparr>projectiles := (projectiles s)[r := (projectiles s ! r)\<lparr>pr_active := False\<rparr>]\<rparr>) =
         filter (\<lambda>i. i \<noteq> r) (projectileChildren s)"
proof -
  have "filter (\<lambda>i. pr_active
            ((projectiles s)[r := (projectiles s ! r)\<lparr>pr_active := False\<rparr>] ! i))
          [0..<length (projectiles s)] =
        filter (\<lambda>i. pr_active (projectiles s ! i) \<and> i \<noteq> r) [0..<length (projectiles s)]"
    using assms by (intro filter_cong refl) (auto simp add: nth_list_update)
  then show ?thesis
    by (simp add: projectileChildren_def)
qed

lemma stepProjectile_cases:
  "stepProjectile r s = s \<or>
   stepProjectile r s =
     s\<lparr>projectiles := (projectiles s)[r := (projectiles s ! r)\<lparr>pr_active := False\<rparr>]\<rparr>"
  by (simp add: stepProjectile_def Let_def split: option.split)

text \<open>
  Once the loop is past index 0, the child at index 0 stays there: every later callback
  acts on another child.
\<close>

lemma stepProjectile_head:
  assumes "projectileChildren s = q # rest" and "r \<in> set rest"
  shows "\<exists>rest'. projectileChildren (stepProjectile r s) = q # rest'"
proof -
  have "distinct (q # rest)"
    using projectileChildren_distinct [of s] assms(1) by simp
  then have ne: "q \<noteq> r" using assms(2) by auto
  have "r \<in> set (projectileChildren s)" using assms by simp
  then have len: "r < length (projectiles s)"
    by (simp add: projectileChildren_set)
  from stepProjectile_cases [of r s] show ?thesis
  proof
    assume "stepProjectile r s = s"
    then show ?thesis using assms(1) by simp
  next
    assume "stepProjectile r s =
      s\<lparr>projectiles := (projectiles s)[r := (projectiles s ! r)\<lparr>pr_active := False\<rparr>]\<rparr>"
    then have "projectileChildren (stepProjectile r s) = filter (\<lambda>i. i \<noteq> r) (q # rest)"
      using projectileChildren_destroy [OF len] assms(1) by simp
    then show ?thesis using ne by simp
  qed
qed

lemma forEach_head:
  assumes "projectileChildren s = q # rest" and "0 < k"
  shows "\<exists>rest'. projectileChildren (forEach projectileChildren stepProjectile k len s)
           = q # rest'"
  using assms
proof (induction projectileChildren stepProjectile k len s arbitrary: rest
    rule: forEach.induct)
  case (1 k len s)
  show ?case
  proof (cases "k < len")
    case True
    let ?s = "if k < length (projectileChildren s)
              then stepProjectile (projectileChildren s ! k) s else s"
    have "\<exists>rest'. projectileChildren ?s = q # rest'"
    proof (cases "k < length (projectileChildren s)")
      case True
      obtain j where j: "k = Suc j" using "1.prems"(2) by (cases k) auto
      have "projectileChildren s ! k \<in> set rest"
        using True "1.prems"(1) j by simp
      then show ?thesis
        using stepProjectile_head [OF "1.prems"(1)] True by simp
    next
      case False
      then show ?thesis using "1.prems"(1) by simp
    qed
    then obtain rest' where r: "projectileChildren ?s = q # rest'" by blast
    have "\<exists>rest'. projectileChildren
            (forEach projectileChildren stepProjectile (Suc k) len ?s) = q # rest'"
      by (rule "1.hyps" [OF True r]) simp
    then show ?thesis using True by (simp add: forEach_step)
  next
    case False
    then show ?thesis using "1.prems"(1) by (simp add: forEach_done)
  qed
qed

text \<open>
  C9: a projectile whose target has been destroyed is to be removed by the next tick,
  without damage to any other enemy. The projectile loop does destroy such a projectile
  when it visits it, but it destroys it inside \<^verbatim>\<open>forEach\<close> over the live array of the
  group. So whenever the first child \<open>p\<close> of the group has lost its target, the child
  \<open>q\<close> that follows it moves to index 0 and is passed over: it is still active after the
  loop, whether or not its own target is gone.
\<close>

theorem orphan_projectile_survives:
  assumes "projectileChildren s = p # q # rest"
    and "case target (projectiles s ! p) of
           None \<Rightarrow> True | Some e \<Rightarrow> \<not> en_active (enemies s ! e)"
  shows "pr_active (projectiles (projectilesStep s) ! q)"
proof -
  let ?s = "s\<lparr>projectiles := (projectiles s)[p := (projectiles s ! p)\<lparr>pr_active := False\<rparr>]\<rparr>"
  have d: "distinct (p # q # rest)"
    using projectileChildren_distinct [of s] assms(1) by simp
  have "p \<in> set (projectileChildren s)" using assms(1) by simp
  then have len: "p < length (projectiles s)"
    by (simp add: projectileChildren_set)
  have first: "stepProjectile p s = ?s"
    using assms(2) by (simp add: stepProjectile_def Let_def split: option.splits)
  have "projectileChildren ?s = filter (\<lambda>i. i \<noteq> p) (p # q # rest)"
    using projectileChildren_destroy [OF len] assms(1) by simp
  then have c: "projectileChildren ?s = q # filter (\<lambda>i. i \<noteq> p) rest"
    using d by auto
  have "projectilesStep s =
      forEach projectileChildren stepProjectile (Suc 0) (Suc (Suc (length rest))) ?s"
    using first by (simp add: projectilesStep_def assms(1) forEach_step)
  moreover have "\<exists>rest'. projectileChildren
      (forEach projectileChildren stepProjectile (Suc 0) (Suc (Suc (length rest))) ?s)
        = q # rest'"
    by (rule forEach_head [OF c]) simp
  ultimately obtain rest' where "projectileChildren (projectilesStep s) = q # rest'"
    by auto
  then have "q \<in> set (projectileChildren (projectilesStep s))" by simp
  then show ?thesis by (simp add: projectileChildren_set)
qed

text \<open>
  Two projectiles next to each other, both with the destroyed enemy 0 as target: after the
  tick the second is still active. And until it is removed such a projectile damages
  whatever enemy it overlaps: \<^verbatim>\<open>handleHit\<close> does not compare the enemy with the
  projectile's target, so the first projectile takes 10 hp from enemy 1.
\<close>

theorem orphan_projectile_survives_witness:
  "(case update ph0 rnd0 scene_two_orphans 0 16 of
      Inl e \<Rightarrow> [] | Inr s \<Rightarrow> map pr_active (projectiles s)) = [False, True]
   \<and> map target (projectiles scene_two_orphans) = [Some 0, Some 0]
   \<and> map en_active (enemies scene_two_orphans) = [False, True]
   \<and> hp (enemies scene_two_orphans ! 1) = 30
   \<and> hp (enemies (handleHit scene_two_orphans 0 1) ! 1) = 20
   \<and> pr_active (projectiles (projectilesStep scene_two_orphans) ! 1)"
proof -
  have ch: "projectileChildren scene_two_orphans = 0 # 1 # []"
    by (simp add: projectileChildren_def scene_two_orphans_def)
  have orph: "case target (projectiles scene_two_orphans ! 0) of
                None \<Rightarrow> True | Some e \<Rightarrow> \<not> en_active (enemies scene_two_orphans ! e)"
    by (simp add: scene_two_orphans_def)
  note second = orphan_projectile_survives [OF ch orph]
  let ?c = "clockAdvance 16 scene_two_orphans"
  let ?m = "enemiesMove ph0 (16 * timeScale scene_two_orphans) ?c"
  have w: "\<not> waveInProgress ?c" and t: "towers ?c = []"
    by (simp_all add: clockAdvance_def scene_two_orphans_def scene0_def)
  have sp: "spawnCheck ph0 rnd0 ?c = Inr ?c"
    using w by (simp add: spawnCheck_def)
  have cc: "completionCheck ph0 rnd0 ?c = ?c"
    using w by (simp add: completionCheck_def)
  have tf: "towersFire ?c = ?c"
    by (simp add: towersFire_def t)
  have res: "update ph0 rnd0 scene_two_orphans 0 16 = Inr (projectilesStep ?m)"
    by (simp add: update_eq_steps update_steps_def sp cc tf)
  have pm: "projectiles ?m =
      [\<lparr>pr_damage = 10, towerId = ''basic'', target = Some 0, pr_active = True\<rparr>,
       \<lparr>pr_damage = 10, towerId = ''basic'', target = Some 0, pr_active = True\<rparr>]"
    by (simp add: projectiles_enemiesMove clockAdvance_def scene_two_orphans_def)
  have em: "map en_active (enemies ?m) = [False, True]"
    by (simp add: enemiesMove_def clockAdvance_def scene_two_orphans_def scene0_def
        enemy0_def ph0_def moveEnemy_def forEach_done forEach_step enemyChildren_def Let_def)
  then have e0: "\<not> en_active (enemies ?m ! 0)"
    by (cases "enemies ?m") simp_all
  have step: "map pr_active (projectiles (projectilesStep ?m)) = [False, True]"
    using e0
    by (simp add: projectilesStep_def forEach_done forEach_step projectileChildren_def
        stepProjectile_def pm Let_def)
  have scene: "map target (projectiles scene_two_orphans) = [Some 0, Some 0]
      \<and> map en_active (enemies scene_two_orphans) = [False, True]
      \<and> hp (enemies scene_two_orphans ! 1) = 30
      \<and> hp (enemies (handleHit scene_two_orphans 0 1) ! 1) = 20"
    by (simp add: handleHit_def scene_two_orphans_def scene0_def enemy0_def Let_def)
  show ?thesis
    using scene second by (simp add: res step)
qed

end
